theory Spec2Isabelle
  imports Complex_Main
begin

section \<open>The AR placement controller of the viewer\<close>

text \<open>
  The development embeds the stateful core of \<^verbatim>\<open>ModelViewer.tsx\<close>, the HUD buttons of
  \<^verbatim>\<open>ArHud.tsx\<close> and the log sink \<^verbatim>\<open>addLog\<close> of the \<^verbatim>\<open>App\<close> component.

  Conventions of the embedding.
  \<^item> JavaScript numbers are modelled by \<^typ>\<open>real\<close> (rounding is not modelled); times in
    milliseconds and \<^verbatim>\<open>Date.now()\<close> by \<^typ>\<open>nat\<close>.
  \<^item> React state, refs and three.js objects are fields of one record; mutable three.js
    objects (\<^verbatim>\<open>Vector3\<close>, \<^verbatim>\<open>Euler\<close>) live in an explicit store indexed by addresses,
    so that \<^verbatim>\<open>clone()\<close> (a fresh address) and \<^verbatim>\<open>copy()\<close>/\<^verbatim>\<open>lerp()\<close> (an update in
    place) are told apart.
  \<^item> Event handlers run to completion; React then renders and runs the effects whose
    dependencies changed (\<open>commit\<close>) before the next event is handled.
  \<^item> A callback scheduled by \<^verbatim>\<open>setTimeout(f, 500)\<close> at time \<open>t\<close> has run before any event
    that is handled at a time \<open>\<ge> t + 500\<close>, and not before.
  \<^item> The orientation of an \<^verbatim>\<open>Object3D\<close> (its quaternion and its Euler rotation, which
    three.js keeps synchronised) is a value of an abstract type \<open>'r\<close>; the three.js functions
    that compute orientations are parameters (\<open>three\<close>).
  \<^item> Left out, as nothing below depends on them: the reticle, the animation of a pressed
    button (\<^verbatim>\<open>setClicked\<close>), console output, the call \<^verbatim>\<open>source.cancel()\<close> (the cancelled
    source is dropped from \<^verbatim>\<open>hitTestSource\<close> at the same time), and the \<^verbatim>\<open>try\<close>/\<^verbatim>\<open>catch\<close>
    around the two \<^verbatim>\<open>clone()\<close> calls of \<^verbatim>\<open>placeModel\<close>, which do not throw.
\<close>

subsection \<open>Vectors and matrices\<close>

type_synonym vec3 = "real \<times> real \<times> real"

text \<open>\<^verbatim>\<open>Matrix4.elements\<close>: sixteen numbers, column-major.\<close>

type_synonym mat4 = "real list"

text \<open>\<^verbatim>\<open>Vector3.lerp(v, alpha)\<close>: \<^verbatim>\<open>this.x += (v.x - this.x) * alpha\<close>, and so on.\<close>

definition lerp :: "vec3 \<Rightarrow> vec3 \<Rightarrow> real \<Rightarrow> vec3" where
  "lerp p v alpha =
     (case p of (x, y, z) \<Rightarrow> case v of (vx, vy, vz) \<Rightarrow>
        (x + (vx - x) * alpha, y + (vy - y) * alpha, z + (vz - z) * alpha))"

text \<open>\<^verbatim>\<open>Vector3.applyMatrix4(m)\<close>, with its perspective divide. (Where the divisor is zero
  JavaScript yields an infinity; HOL's division yields 0. Camera world matrices are affine,
  the divisor is then 1.)\<close>

definition applyMatrix4 :: "vec3 \<Rightarrow> mat4 \<Rightarrow> vec3" where
  "applyMatrix4 v e =
     (case v of (x, y, z) \<Rightarrow>
        let w = 1 / (e ! 3 * x + e ! 7 * y + e ! 11 * z + e ! 15) in
        ((e ! 0 * x + e ! 4 * y + e ! 8 * z + e ! 12) * w,
         (e ! 1 * x + e ! 5 * y + e ! 9 * z + e ! 13) * w,
         (e ! 2 * x + e ! 6 * y + e ! 10 * z + e ! 14) * w))"

text \<open>The position that \<^verbatim>\<open>Matrix4.decompose(p, q, s)\<close> writes into \<open>p\<close>.\<close>

definition decomposePosition :: "mat4 \<Rightarrow> vec3" where
  "decomposePosition e = (e ! 12, e ! 13, e ! 14)"

text \<open>The orientation functions of three.js that the viewer calls.\<close>

record 'r three =
  identityRotation :: 'r
  decomposeRotation :: "mat4 \<Rightarrow> 'r"
  lookAtRotation :: "vec3 \<Rightarrow> vec3 \<Rightarrow> 'r"

subsection \<open>State\<close>

text \<open>The preview \<^verbatim>\<open>Group\<close>: the addresses of its \<^verbatim>\<open>position\<close> and \<^verbatim>\<open>rotation\<close> objects.\<close>

record group =
  gPosition :: nat
  gRotation :: nat

text \<open>An element of \<^verbatim>\<open>models\<close>: references to a \<^verbatim>\<open>Vector3\<close> and an \<^verbatim>\<open>Euler\<close>, and the id.\<close>

record model_entry =
  position :: nat
  rotation :: nat
  ident :: string

text \<open>What one call of the \<^verbatim>\<open>useFrame\<close> callback reads from its arguments and from the
  renderer: \<open>hitResults\<close> lists, for each element of
  \<^verbatim>\<open>frame.getHitTestResults(hitTestSource.current)\<close>, the matrix of
  \<^verbatim>\<open>hit.getPose(referenceSpace)\<close>, or \<open>None\<close> where \<^verbatim>\<open>getPose\<close> returns null.\<close>

record frame =
  delta :: real
  hasFrame :: bool
  camMatrixWorld :: mat4
  camPosition :: vec3
  hasReferenceSpace :: bool
  hitResults :: "mat4 option list"

record 'r viewer =
  debugLog :: "string list"
  onLogId :: nat
  emitted :: "string list"
  isPresenting :: bool
  models :: "model_entry list"
  isPlacementMode :: bool
  isSurfaceDetected :: bool
  hasLoggedHit :: bool
  isUiBlocked :: bool
  timers :: "nat list"
  hitTestSource :: "nat option"
  pendingRequests :: nat
  issuedRequests :: nat
  previewRef :: "group option"
  resetDeps :: bool
  hitDeps :: "bool \<times> nat"
  vecs :: "nat \<Rightarrow> vec3"
  rots :: "nat \<Rightarrow> 'r"
  nextAddr :: nat

text \<open>
  \<^item> \<open>debugLog\<close> is the state of \<^verbatim>\<open>App\<close>; \<open>emitted\<close> records every message passed to
    \<^verbatim>\<open>onLog\<close>, oldest first (an observation, not a variable of the program).
  \<^item> \<open>onLogId\<close> is the identity of the \<^verbatim>\<open>addLog\<close> closure that \<^verbatim>\<open>App\<close> passes down as
    \<^verbatim>\<open>onLog\<close>: \<^verbatim>\<open>addLog\<close> is created anew by every render of \<^verbatim>\<open>App\<close>, and
    \<^verbatim>\<open>setDebugLog\<close> causes such a render.
  \<^item> \<open>isPresenting\<close> stands for \<^verbatim>\<open>mode === 'immersive-ar'\<close> and for the presence of the
    session.
  \<^item> \<open>isUiBlocked\<close> is the ref of that name, \<open>timers\<close> the deadlines of the pending
    \<^verbatim>\<open>setTimeout\<close> callbacks of \<^verbatim>\<open>setUiBlocked\<close>.
  \<^item> \<open>pendingRequests\<close> counts the calls of \<^verbatim>\<open>initHitTest\<close> that have neither resolved
    nor failed yet, \<open>issuedRequests\<close> all calls made so far.
  \<^item> \<open>resetDeps\<close> and \<open>hitDeps\<close> are the dependency values that the two effects saw when
    they last ran.
  \<^item> \<open>vecs\<close> and \<open>rots\<close> are the store; addresses below \<open>nextAddr\<close> are allocated.
\<close>

subsection \<open>The log sink\<close>

text \<open>\<^verbatim>\<open>setDebugLog(prev => [msg, ...prev].slice(0, 5))\<close>\<close>

definition addLog :: "string \<Rightarrow> string list \<Rightarrow> string list" where
  "addLog msg prev = take 5 (msg # prev)"

text \<open>A call of the \<^verbatim>\<open>onLog\<close> prop, which is \<^verbatim>\<open>addLog\<close>.\<close>

definition onLog :: "string \<Rightarrow> 'r viewer \<Rightarrow> 'r viewer" where
  "onLog msg s =
     s\<lparr>debugLog := addLog msg (debugLog s),
       emitted := emitted s @ [msg],
       onLogId := onLogId s + 1\<rparr>"

subsection \<open>The interaction gate\<close>

text \<open>\<^verbatim>\<open>setUiBlocked\<close>, called at time \<open>t\<close>.\<close>

definition setUiBlocked :: "nat \<Rightarrow> bool \<Rightarrow> 'r viewer \<Rightarrow> 'r viewer" where
  "setUiBlocked t blocked s =
     (let s1 = s\<lparr>isUiBlocked := blocked\<rparr> in
      if blocked then s1\<lparr>timers := timers s1 @ [t + 500]\<rparr> else s1)"

text \<open>The timer callbacks that are due at time \<open>t\<close>: each sets the flag to false.\<close>

definition fireTimers :: "nat \<Rightarrow> 'r viewer \<Rightarrow> 'r viewer" where
  "fireTimers t s =
     (if filter (\<lambda>d. d \<le> t) (timers s) = [] then s
      else s\<lparr>isUiBlocked := False, timers := filter (\<lambda>d. t < d) (timers s)\<rparr>)"

subsection \<open>Identifiers\<close>

definition digit_char :: "nat \<Rightarrow> char" where
  "digit_char d = char_of (48 + d)"

text \<open>The decimal rendering of a number in a template literal.\<close>

function decimal :: "nat \<Rightarrow> string" where
  "decimal n = (if n < 10 then [digit_char n] else decimal (n div 10) @ [digit_char (n mod 10)])"
  by pat_completeness auto

termination
  by (relation "measure (\<lambda>n. n)") auto

text \<open>\<^verbatim>\<open>`model-${Date.now()}-${Math.random().toString(36).substr(2, 9)}`\<close>, where \<open>now\<close> is the
  value of \<^verbatim>\<open>Date.now()\<close> and \<open>rnd\<close> the string that the random expression evaluates to.\<close>

definition gen_id :: "nat \<Rightarrow> string \<Rightarrow> string" where
  "gen_id now rnd = ''model-'' @ decimal now @ ''-'' @ rnd"

subsection \<open>The frame callback\<close>

text \<open>Step 1 of the callback: the pose of the first hit-test result, when the source and
  the reference space exist and that result has a pose.\<close>

definition hitTest :: "nat option \<Rightarrow> frame \<Rightarrow> mat4 option" where
  "hitTest src fr =
     (if src \<noteq> None \<and> hasReferenceSpace fr
      then (case hitResults fr of [] \<Rightarrow> None | hit # _ \<Rightarrow> hit)
      else None)"

definition useFrame :: "'r three \<Rightarrow> frame \<Rightarrow> 'r viewer \<Rightarrow> 'r viewer" where
  "useFrame L fr s =
     (if \<not> isPresenting s then s
      else if \<not> hasFrame fr then s
      else if \<not> isPlacementMode s then s
      else case hitTest (hitTestSource s) fr of
        Some m \<Rightarrow>
          let s1 = (if \<not> isSurfaceDetected s then s\<lparr>isSurfaceDetected := True\<rparr> else s);
              s2 = (if \<not> hasLoggedHit s
                    then (onLog ''Surface detected!'' s1)\<lparr>hasLoggedHit := True\<rparr> else s1)
          in (case previewRef s2 of
                None \<Rightarrow> s2
              | Some g \<Rightarrow>
                  s2\<lparr>vecs := (vecs s2)(gPosition g := decomposePosition m),
                     rots := (rots s2)(gRotation g := decomposeRotation L m)\<rparr>)
      | None \<Rightarrow>
          let s1 = (if isSurfaceDetected s then s\<lparr>isSurfaceDetected := False\<rparr> else s)
          in (case previewRef s1 of
                None \<Rightarrow> s1
              | Some g \<Rightarrow>
                  let targetPos = applyMatrix4 (0, 0, - 1.5) (camMatrixWorld fr);
                      p = lerp (vecs s1 (gPosition g)) targetPos (delta fr * 5)
                  in s1\<lparr>vecs := (vecs s1)(gPosition g := p),
                        rots := (rots s1)(gRotation g := lookAtRotation L p (camPosition fr))\<rparr>))"

subsection \<open>Placement and clearing\<close>

text \<open>\<^verbatim>\<open>placeModel\<close>: the two \<^verbatim>\<open>clone()\<close> calls allocate the cells \<open>a\<close> and \<open>a + 1\<close>.\<close>

definition placeModel :: "nat \<Rightarrow> string \<Rightarrow> 'r viewer \<Rightarrow> 'r viewer" where
  "placeModel now rnd s =
     (if \<not> isPresenting s then s
      else if \<not> isPlacementMode s then s
      else if isUiBlocked s then s
      else case (if isSurfaceDetected s then previewRef s else None) of
        Some g \<Rightarrow>
          let a = nextAddr s;
              s1 = s\<lparr>vecs := (vecs s)(a := vecs s (gPosition g)),
                     rots := (rots s)(a + 1 := rots s (gRotation g)),
                     nextAddr := a + 2\<rparr>;
              s2 = s1\<lparr>models := models s1 @
                       [\<lparr>position = a, rotation = a + 1, ident = gen_id now rnd\<rparr>]\<rparr>
          in onLog ''Model placed'' s2
      | None \<Rightarrow>
          if \<not> isSurfaceDetected s then onLog ''Find a surface first'' s else s)"

definition clearScene :: "'r viewer \<Rightarrow> 'r viewer" where
  "clearScene s = onLog ''Scene cleared'' (s\<lparr>models := []\<rparr>)"

subsection \<open>The HUD buttons\<close>

definition handlePointerDown :: "nat \<Rightarrow> 'r viewer \<Rightarrow> 'r viewer" where
  "handlePointerDown t s = setUiBlocked t True s"

text \<open>\<^verbatim>\<open>handleInteraction\<close>; \<^verbatim>\<open>setClicked\<close> only animates the button.\<close>

definition handleInteraction ::
  "nat \<Rightarrow> ('r viewer \<Rightarrow> 'r viewer) \<Rightarrow> 'r viewer \<Rightarrow> 'r viewer" where
  "handleInteraction t onClick s = onClick (setUiBlocked t True s)"

text \<open>The \<^verbatim>\<open>onClick\<close> of the button CLEAR SCENE.\<close>

definition clearOnClick :: "'r viewer \<Rightarrow> 'r viewer" where
  "clearOnClick s = onLog ''Scene Cleared'' (clearScene s)"

text \<open>The \<^verbatim>\<open>onClick\<close> of the button PLACE: ON/OFF. The message is chosen from the value of \<^verbatim>\<open>isPlacementMode\<close> that the HUD was
  rendered with, the one before the toggle.\<close>

definition toggleOnClick :: "'r viewer \<Rightarrow> 'r viewer" where
  "toggleOnClick s =
     (let was = isPlacementMode s in
      onLog (if was then ''Placement Disabled'' else ''Placement Enabled'')
        (s\<lparr>isPlacementMode := \<not> was\<rparr>))"

subsection \<open>Rendering and effects\<close>

text \<open>The preview group is rendered, and \<^verbatim>\<open>previewRef\<close> attached, exactly in AR with
  placement mode on; a newly mounted group is a new object at the origin.\<close>

definition syncPreview :: "'r three \<Rightarrow> 'r viewer \<Rightarrow> 'r viewer" where
  "syncPreview L s =
     (if isPresenting s \<and> isPlacementMode s then
        (case previewRef s of
           Some g \<Rightarrow> s
         | None \<Rightarrow>
             let a = nextAddr s in
             s\<lparr>previewRef := Some \<lparr>gPosition = a, gRotation = a + 1\<rparr>,
               vecs := (vecs s)(a := (0, 0, 0)),
               rots := (rots s)(a + 1 := identityRotation L),
               nextAddr := a + 2\<rparr>)
      else s\<lparr>previewRef := None\<rparr>)"

text \<open>The effect with dependencies \<^verbatim>\<open>[isPresenting]\<close>.\<close>

definition resetEffect :: "'r viewer \<Rightarrow> 'r viewer" where
  "resetEffect s =
     (if resetDeps s = isPresenting s then s
      else let s1 = s\<lparr>resetDeps := isPresenting s\<rparr> in
           if isPresenting s then s1\<lparr>hasLoggedHit := False, isSurfaceDetected := False\<rparr>
           else s1)"

text \<open>The effect with dependencies \<^verbatim>\<open>[session, isPresenting, onLog]\<close>: first the cleanup
  that the previous run returned (it returned one unless it took the early return), then
  the body.\<close>

definition hitTestEffect :: "'r viewer \<Rightarrow> 'r viewer" where
  "hitTestEffect s =
     (if hitDeps s = (isPresenting s, onLogId s) then s
      else let s1 = (if fst (hitDeps s) then s\<lparr>hitTestSource := None\<rparr> else s);
               s2 = s1\<lparr>hitDeps := (isPresenting s, onLogId s)\<rparr>
           in if \<not> isPresenting s then s2\<lparr>hitTestSource := None\<rparr>
              else s2\<lparr>pendingRequests := pendingRequests s2 + 1,
                      issuedRequests := issuedRequests s2 + 1\<rparr>)"

text \<open>What React does after a handler has run: render, attach refs, run the effects.\<close>

definition commit :: "'r three \<Rightarrow> 'r viewer \<Rightarrow> 'r viewer" where
  "commit L s = hitTestEffect (resetEffect (syncPreview L s))"

subsection \<open>Events\<close>

datatype event =
    EnterAR
  | ExitAR
  | HitTestResolved nat
  | HitTestFailed string
  | Frame frame
  | Select nat string
  | HudPointerDown
  | HudClickClear
  | HudClickToggle

text \<open>
  \<^item> \<open>EnterAR\<close>: \<^verbatim>\<open>handleEnterAR\<close> succeeds; \<open>ExitAR\<close>: the session ends.
  \<^item> \<open>HitTestResolved src\<close>, \<open>HitTestFailed msg\<close>: a pending \<^verbatim>\<open>initHitTest\<close> completes.
  \<^item> \<open>Select now rnd\<close>: the session's \<^verbatim>\<open>select\<close> event, with the values that
    \<^verbatim>\<open>Date.now()\<close> and the random expression take in \<^verbatim>\<open>placeModel\<close>.
  \<^item> The HUD, and with it its buttons, exists only while presenting.
\<close>

definition handle :: "'r three \<Rightarrow> nat \<Rightarrow> event \<Rightarrow> 'r viewer \<Rightarrow> 'r viewer" where
  "handle L t ev s =
     (case ev of
        EnterAR \<Rightarrow> (onLog ''Initializing AR...'' s)\<lparr>isPresenting := True\<rparr>
      | ExitAR \<Rightarrow> s\<lparr>isPresenting := False\<rparr>
      | HitTestResolved src \<Rightarrow>
          if pendingRequests s = 0 then s
          else s\<lparr>hitTestSource := Some src, pendingRequests := pendingRequests s - 1\<rparr>
      | HitTestFailed msg \<Rightarrow>
          if pendingRequests s = 0 then s
          else onLog (''Hit Test Error: '' @ msg) (s\<lparr>pendingRequests := pendingRequests s - 1\<rparr>)
      | Frame fr \<Rightarrow> useFrame L fr s
      | Select now rnd \<Rightarrow> if isPresenting s then placeModel now rnd s else s
      | HudPointerDown \<Rightarrow> if isPresenting s then handlePointerDown t s else s
      | HudClickClear \<Rightarrow> if isPresenting s then handleInteraction t clearOnClick s else s
      | HudClickToggle \<Rightarrow> if isPresenting s then handleInteraction t toggleOnClick s else s)"

text \<open>One event at time \<open>t\<close>: the timers that are due, the handler, the commit.\<close>

definition step :: "'r three \<Rightarrow> nat \<Rightarrow> event \<Rightarrow> 'r viewer \<Rightarrow> 'r viewer" where
  "step L t ev s = commit L (handle L t ev (fireTimers t s))"

fun run :: "'r three \<Rightarrow> (nat \<times> event) list \<Rightarrow> 'r viewer \<Rightarrow> 'r viewer" where
  "run L [] s = s"
| "run L ((t, ev) # evs) s = run L evs (step L t ev s)"

text \<open>The state after the first render, outside AR.\<close>

definition init :: "'r three \<Rightarrow> 'r viewer" where
  "init L =
     \<lparr>debugLog = [], onLogId = 0, emitted = [], isPresenting = False, models = [],
      isPlacementMode = True, isSurfaceDetected = False, hasLoggedHit = False,
      isUiBlocked = False, timers = [], hitTestSource = None, pendingRequests = 0,
      issuedRequests = 0, previewRef = None, resetDeps = False, hitDeps = (False, 0),
      vecs = (\<lambda>_. (0, 0, 0)), rots = (\<lambda>_. identityRotation L), nextAddr = 0\<rparr>"

section \<open>Auxiliary notions for the statements and proofs\<close>

subsection \<open>Predicates on states and events\<close>

text \<open>The visible history is determined by the messages emitted so far.\<close>

definition log_ok :: "'r viewer \<Rightarrow> bool" where
  "log_ok s = (debugLog s = take 5 (rev (emitted s)))"

text \<open>The events that call \<^verbatim>\<open>setUiBlocked(true)\<close>.\<close>

definition is_hud :: "event \<Rightarrow> bool" where
  "is_hud ev = (case ev of HudPointerDown \<Rightarrow> True | HudClickClear \<Rightarrow> True
                | HudClickToggle \<Rightarrow> True | _ \<Rightarrow> False)"

text \<open>One pending unblock at \<open>d\<close>, or none any more once time \<open>d\<close> has been reached.\<close>

definition one_pending :: "nat \<Rightarrow> nat \<Rightarrow> 'r viewer \<Rightarrow> bool" where
  "one_pending d u s =
     (if timers s = [d] then isUiBlocked s
      else timers s = [] \<and> \<not> isUiBlocked s \<and> d \<le> u)"

text \<open>The objects of the preview group are allocated.\<close>

definition preview_bound :: "'r viewer \<Rightarrow> bool" where
  "preview_bound s =
     (case previewRef s of None \<Rightarrow> True
      | Some g \<Rightarrow> gPosition g < nextAddr s \<and> gRotation g < nextAddr s)"

text \<open>A state between two events: the effects have run and the preview group is mounted
  exactly when it is rendered.\<close>

definition settled :: "'r viewer \<Rightarrow> bool" where
  "settled s =
     (resetDeps s = isPresenting s \<and> hitDeps s = (isPresenting s, onLogId s)
      \<and> preview_bound s
      \<and> (previewRef s \<noteq> None) = (isPresenting s \<and> isPlacementMode s))"

text \<open>The objects of a placed entry are allocated and are not those of the preview.\<close>

definition sep :: "'r viewer \<Rightarrow> model_entry \<Rightarrow> bool" where
  "sep s m =
     (position m < nextAddr s \<and> rotation m < nextAddr s
      \<and> (case previewRef s of None \<Rightarrow> True
          | Some g \<Rightarrow> position m \<noteq> gPosition g \<and> rotation m \<noteq> gRotation g))"

text \<open>The pose stored with an entry, and the pose of the preview, read from the store.\<close>

definition pose_of :: "'r viewer \<Rightarrow> model_entry \<Rightarrow> vec3 \<times> 'r" where
  "pose_of s m = (vecs s (position m), rots s (rotation m))"

definition preview_pose :: "'r viewer \<Rightarrow> (vec3 \<times> 'r) option" where
  "preview_pose s =
     (case previewRef s of None \<Rightarrow> None
      | Some g \<Rightarrow> Some (vecs s (gPosition g), rots s (gRotation g)))"

definition inv :: "'r viewer \<Rightarrow> bool" where
  "inv s = (settled s \<and> list_all (sep s) (models s))"

text \<open>A sequence of frame ticks as events.\<close>

definition frames :: "(nat \<times> frame) list \<Rightarrow> (nat \<times> event) list" where
  "frames frs = map (\<lambda>(t, fr). (t, Frame fr)) frs"

text \<open>The event is a frame tick that takes the branch "surface detected" in state \<open>s\<close>;
  some event of a sequence does so in the state it is handled in.\<close>

definition detects :: "'r viewer \<Rightarrow> event \<Rightarrow> bool" where
  "detects s ev =
     (case ev of
        Frame fr \<Rightarrow> isPresenting s \<and> hasFrame fr \<and> isPlacementMode s
                    \<and> hitTest (hitTestSource s) fr \<noteq> None
      | _ \<Rightarrow> False)"



definition sd_count :: "'r viewer \<Rightarrow> nat" where
  "sd_count s = count_list (emitted s) ''Surface detected!''"

text \<open>Reading a decimal numeral back.\<close>

definition dec_value :: "string \<Rightarrow> nat" where
  "dec_value cs = foldl (\<lambda>a c. 10 * a + (of_char c - 48)) 0 cs"

declare decimal.simps [simp del]

text \<open>The point at the fraction \<open>k\<close> of the way from \<open>T\<close> to \<open>p\<close>: \<open>T + (p - T) * k\<close>.\<close>

definition towards :: "vec3 \<Rightarrow> real \<Rightarrow> vec3 \<Rightarrow> vec3" where
  "towards T k p =
     (case T of (tx, ty, tz) \<Rightarrow> case p of (x, y, z) \<Rightarrow>
        (tx + (x - tx) * k, ty + (y - ty) * k, tz + (z - tz) * k))"

definition preview_position :: "'r viewer \<Rightarrow> vec3 option" where
  "preview_position s =
     (case previewRef s of None \<Rightarrow> None | Some g \<Rightarrow> Some (vecs s (gPosition g)))"

subsection \<open>Inputs and states of the example runs\<close>

text \<open>A library instance that carries no orientation information.\<close>

definition flat_three :: "unit three" where
  "flat_three =
     \<lparr>identityRotation = (), decomposeRotation = (\<lambda>_. ()), lookAtRotation = (\<lambda>_ _. ())\<rparr>"

definition identity4 :: mat4 where
  "identity4 = [1, 0, 0, 0, 0, 1, 0, 0, 0, 0, 1, 0, 0, 0, 0, 1]"

text \<open>A frame whose hit test finds a surface at \<open>(1, 0, -2)\<close>; the camera is at the origin.\<close>

definition hit_frame :: frame where
  "hit_frame =
     \<lparr>delta = 1 / 64, hasFrame = True, camMatrixWorld = identity4, camPosition = (0, 0, 0),
      hasReferenceSpace = True,
      hitResults = [Some [1, 0, 0, 0, 0, 1, 0, 0, 0, 0, 1, 0, 1, 0, - 2, 1]]\<rparr>"

text \<open>A frame of \<open>d\<close> seconds whose hit test finds nothing.\<close>

definition miss_frame :: "real \<Rightarrow> frame" where
  "miss_frame d =
     \<lparr>delta = d, hasFrame = True, camMatrixWorld = identity4, camPosition = (0, 0, 0),
      hasReferenceSpace = True, hitResults = []\<rparr>"

text \<open>The states that the example runs pass through.\<close>

definition st_ar :: "unit viewer" where
  "st_ar =
     \<lparr>debugLog = [''Initializing AR...''], onLogId = 1, emitted = [''Initializing AR...''],
        isPresenting = True, models = [], isPlacementMode = True, isSurfaceDetected = False,
        hasLoggedHit = False, isUiBlocked = False, timers = [], hitTestSource = None,
        pendingRequests = 1, issuedRequests = 1,
        previewRef = Some \<lparr>gPosition = 0, gRotation = 1\<rparr>, resetDeps = True,
        hitDeps = (True, 1), vecs = (\<lambda>_. (0, 0, 0))(0 := (0, 0, 0)),
        rots = (\<lambda>_. ())(1 := ()), nextAddr = 2\<rparr>"

definition st_src :: "unit viewer" where
  "st_src =
     \<lparr>debugLog = [''Initializing AR...''], onLogId = 1, emitted = [''Initializing AR...''],
        isPresenting = True, models = [], isPlacementMode = True, isSurfaceDetected = False,
        hasLoggedHit = False, isUiBlocked = False, timers = [], hitTestSource = Some 7,
        pendingRequests = 0, issuedRequests = 1,
        previewRef = Some \<lparr>gPosition = 0, gRotation = 1\<rparr>, resetDeps = True,
        hitDeps = (True, 1), vecs = (\<lambda>_. (0, 0, 0))(0 := (0, 0, 0)),
        rots = (\<lambda>_. ())(1 := ()), nextAddr = 2\<rparr>"

definition st_det :: "unit viewer" where
  "st_det =
     \<lparr>debugLog = [''Surface detected!'', ''Initializing AR...''], onLogId = 2,
        emitted = [''Initializing AR...'', ''Surface detected!''], isPresenting = True,
        models = [], isPlacementMode = True, isSurfaceDetected = True, hasLoggedHit = True,
        isUiBlocked = False, timers = [], hitTestSource = None, pendingRequests = 1,
        issuedRequests = 2, previewRef = Some \<lparr>gPosition = 0, gRotation = 1\<rparr>,
        resetDeps = True, hitDeps = (True, 2), vecs = (\<lambda>_. (0, 0, 0))(0 := (1, 0, - 2)),
        rots = (\<lambda>_. ())(1 := ()), nextAddr = 2\<rparr>"

definition st_down :: "unit viewer" where
  "st_down =
     \<lparr>debugLog = [''Surface detected!'', ''Initializing AR...''], onLogId = 2,
        emitted = [''Initializing AR...'', ''Surface detected!''], isPresenting = True,
        models = [], isPlacementMode = True, isSurfaceDetected = True, hasLoggedHit = True,
        isUiBlocked = True, timers = [1500], hitTestSource = None, pendingRequests = 1,
        issuedRequests = 2, previewRef = Some \<lparr>gPosition = 0, gRotation = 1\<rparr>,
        resetDeps = True, hitDeps = (True, 2), vecs = (\<lambda>_. (0, 0, 0))(0 := (1, 0, - 2)),
        rots = (\<lambda>_. ())(1 := ()), nextAddr = 2\<rparr>"

definition st_clr :: "unit viewer" where
  "st_clr =
     \<lparr>debugLog =
        [''Scene Cleared'', ''Scene cleared'', ''Surface detected!'', ''Initializing AR...''],
        onLogId = 4,
        emitted =
          [''Initializing AR...'', ''Surface detected!'', ''Scene cleared'', ''Scene Cleared''],
        isPresenting = True, models = [], isPlacementMode = True, isSurfaceDetected = True,
        hasLoggedHit = True, isUiBlocked = True, timers = [1500, 1900], hitTestSource = None,
        pendingRequests = 2, issuedRequests = 3,
        previewRef = Some \<lparr>gPosition = 0, gRotation = 1\<rparr>, resetDeps = True,
        hitDeps = (True, 4), vecs = (\<lambda>_. (0, 0, 0))(0 := (1, 0, - 2)),
        rots = (\<lambda>_. ())(1 := ()), nextAddr = 2\<rparr>"

definition st_tap :: "unit viewer" where
  "st_tap =
     \<lparr>debugLog =
        [''Model placed'', ''Scene Cleared'', ''Scene cleared'', ''Surface detected!'',
         ''Initializing AR...''],
        onLogId = 5,
        emitted =
          [''Initializing AR...'', ''Surface detected!'', ''Scene cleared'', ''Scene Cleared'',
           ''Model placed''],
        isPresenting = True,
        models =
          [\<lparr>position = 2, rotation = 3, ident = gen_id 42 ''abc''\<rparr>],
        isPlacementMode = True, isSurfaceDetected = True, hasLoggedHit = True, isUiBlocked = False,
        timers = [1900], hitTestSource = None, pendingRequests = 3,
        issuedRequests = 4,
        previewRef = Some \<lparr>gPosition = 0, gRotation = 1\<rparr>, resetDeps = True,
        hitDeps = (True, 5),
        vecs = (\<lambda>_. (0, 0, 0))(0 := (1, 0, - 2), 2 := (1, 0, - 2)),
        rots = (\<lambda>_. ())(1 := (), 3 := ()), nextAddr = 4\<rparr>"

definition st_p1 :: "unit viewer" where
  "st_p1 =
     \<lparr>debugLog = [''Model placed'', ''Surface detected!'', ''Initializing AR...''],
        onLogId = 3,
        emitted = [''Initializing AR...'', ''Surface detected!'', ''Model placed''],
        isPresenting = True,
        models =
          [\<lparr>position = 2, rotation = 3, ident = gen_id 42 ''abc''\<rparr>],
        isPlacementMode = True, isSurfaceDetected = True, hasLoggedHit = True, isUiBlocked = False,
        timers = [], hitTestSource = None, pendingRequests = 2,
        issuedRequests = 3, previewRef = Some \<lparr>gPosition = 0, gRotation = 1\<rparr>,
        resetDeps = True, hitDeps = (True, 3),
        vecs = (\<lambda>_. (0, 0, 0))(0 := (1, 0, - 2), 2 := (1, 0, - 2)),
        rots = (\<lambda>_. ())(1 := (), 3 := ()), nextAddr = 4\<rparr>"

definition st_p2 :: "unit viewer" where
  "st_p2 =
     \<lparr>debugLog =
        [''Scene Cleared'', ''Scene cleared'', ''Model placed'', ''Surface detected!'',
         ''Initializing AR...''],
        onLogId = 5,
        emitted =
          [''Initializing AR...'', ''Surface detected!'', ''Model placed'', ''Scene cleared'',
           ''Scene Cleared''],
        isPresenting = True, models = [], isPlacementMode = True, isSurfaceDetected = True,
        hasLoggedHit = True, isUiBlocked = True, timers = [1500], hitTestSource = None,
        pendingRequests = 3, issuedRequests = 4,
        previewRef = Some \<lparr>gPosition = 0, gRotation = 1\<rparr>, resetDeps = True,
        hitDeps = (True, 5),
        vecs = (\<lambda>_. (0, 0, 0))(0 := (1, 0, - 2), 2 := (1, 0, - 2)),
        rots = (\<lambda>_. ())(1 := (), 3 := ()), nextAddr = 4\<rparr>"

definition st_p3 :: "unit viewer" where
  "st_p3 =
     \<lparr>debugLog =
        [''Model placed'', ''Scene Cleared'', ''Scene cleared'', ''Model placed'',
         ''Surface detected!''],
        onLogId = 6,
        emitted =
          [''Initializing AR...'', ''Surface detected!'', ''Model placed'', ''Scene cleared'',
           ''Scene Cleared'', ''Model placed''],
        isPresenting = True,
        models =
          [\<lparr>position = 4, rotation = 5,
              ident = gen_id 42 ''abc''\<rparr>],
        isPlacementMode = True, isSurfaceDetected = True, hasLoggedHit = True, isUiBlocked = False,
        timers = [], hitTestSource = None, pendingRequests = 4,
        issuedRequests = 5,
        previewRef = Some \<lparr>gPosition = 0, gRotation = 1\<rparr>, resetDeps = True,
        hitDeps = (True, 6),
        vecs =
          (\<lambda>_. (0, 0, 0))
          (0 := (1, 0, - 2), 2 := (1, 0, - 2), 4 := (1, 0, - 2)),
        rots = (\<lambda>_. ())(1 := (), 3 := (), 5 := ()),
        nextAddr = 6\<rparr>"

definition st_p1m :: "unit viewer" where
  "st_p1m =
     \<lparr>debugLog = [''Model placed'', ''Surface detected!'', ''Initializing AR...''],
        onLogId = 3,
        emitted = [''Initializing AR...'', ''Surface detected!'', ''Model placed''],
        isPresenting = True,
        models =
          [\<lparr>position = 2, rotation = 3, ident = gen_id 42 ''abc''\<rparr>],
        isPlacementMode = True, isSurfaceDetected = False, hasLoggedHit = True,
        isUiBlocked = False, timers = [], hitTestSource = None, pendingRequests = 2,
        issuedRequests = 3, previewRef = Some \<lparr>gPosition = 0, gRotation = 1\<rparr>,
        resetDeps = True, hitDeps = (True, 3),
        vecs = (\<lambda>_. (0, 0, 0))(2 := (1, 0, - 2), 0 := (3 / 8, 0, - (27 / 16))),
        rots = (\<lambda>_. ())(3 := (), 1 := ()), nextAddr = 4\<rparr>"

definition st_fail :: "unit viewer" where
  "st_fail =
     \<lparr>debugLog = [''Hit Test Error: x'', ''Initializing AR...''], onLogId = 2,
        emitted = [''Initializing AR...'', ''Hit Test Error: x''], isPresenting = True,
        models = [], isPlacementMode = True, isSurfaceDetected = False, hasLoggedHit = False,
        isUiBlocked = False, timers = [], hitTestSource = None, pendingRequests = 1,
        issuedRequests = 2, previewRef = Some \<lparr>gPosition = 0, gRotation = 1\<rparr>,
        resetDeps = True, hitDeps = (True, 2), vecs = (\<lambda>_. (0, 0, 0))(0 := (0, 0, 0)),
        rots = (\<lambda>_. ())(1 := ()), nextAddr = 2\<rparr>"

definition st_re :: "unit viewer" where
  "st_re =
     \<lparr>debugLog = [''Hit Test Error: x'', ''Initializing AR...''], onLogId = 2,
        emitted = [''Initializing AR...'', ''Hit Test Error: x''], isPresenting = True,
        models = [], isPlacementMode = True, isSurfaceDetected = False, hasLoggedHit = False,
        isUiBlocked = False, timers = [], hitTestSource = Some 8, pendingRequests = 0,
        issuedRequests = 2, previewRef = Some \<lparr>gPosition = 0, gRotation = 1\<rparr>,
        resetDeps = True, hitDeps = (True, 2), vecs = (\<lambda>_. (0, 0, 0))(0 := (0, 0, 0)),
        rots = (\<lambda>_. ())(1 := ()), nextAddr = 2\<rparr>"

definition st_redet :: "unit viewer" where
  "st_redet =
     \<lparr>debugLog = [''Surface detected!'', ''Hit Test Error: x'', ''Initializing AR...''],
        onLogId = 3,
        emitted = [''Initializing AR...'', ''Hit Test Error: x'', ''Surface detected!''],
        isPresenting = True, models = [], isPlacementMode = True, isSurfaceDetected = True,
        hasLoggedHit = True, isUiBlocked = False, timers = [], hitTestSource = None,
        pendingRequests = 1, issuedRequests = 3,
        previewRef = Some \<lparr>gPosition = 0, gRotation = 1\<rparr>, resetDeps = True,
        hitDeps = (True, 3), vecs = (\<lambda>_. (0, 0, 0))(0 := (1, 0, - 2)),
        rots = (\<lambda>_. ())(1 := ()), nextAddr = 2\<rparr>"

definition st_a :: "unit viewer" where
  "st_a =
     \<lparr>debugLog = [''Initializing AR...''], onLogId = 1, emitted = [''Initializing AR...''],
        isPresenting = True, models = [], isPlacementMode = True, isSurfaceDetected = False,
        hasLoggedHit = False, isUiBlocked = False, timers = [], hitTestSource = None,
        pendingRequests = 1, issuedRequests = 1,
        previewRef = Some \<lparr>gPosition = 0, gRotation = 1\<rparr>, resetDeps = True,
        hitDeps = (True, 1), vecs = (\<lambda>_. (0, 0, 0))(0 := (0, 0, - (15 / 8))),
        rots = (\<lambda>_. ())(1 := ()), nextAddr = 2\<rparr>"

definition st_b1 :: "unit viewer" where
  "st_b1 =
     \<lparr>debugLog = [''Initializing AR...''], onLogId = 1, emitted = [''Initializing AR...''],
        isPresenting = True, models = [], isPlacementMode = True, isSurfaceDetected = False,
        hasLoggedHit = False, isUiBlocked = False, timers = [], hitTestSource = None,
        pendingRequests = 1, issuedRequests = 1,
        previewRef = Some \<lparr>gPosition = 0, gRotation = 1\<rparr>, resetDeps = True,
        hitDeps = (True, 1), vecs = (\<lambda>_. (0, 0, 0))(0 := (0, 0, - (15 / 16))),
        rots = (\<lambda>_. ())(1 := ()), nextAddr = 2\<rparr>"

definition st_b2 :: "unit viewer" where
  "st_b2 =
     \<lparr>debugLog = [''Initializing AR...''], onLogId = 1, emitted = [''Initializing AR...''],
        isPresenting = True, models = [], isPlacementMode = True, isSurfaceDetected = False,
        hasLoggedHit = False, isUiBlocked = False, timers = [], hitTestSource = None,
        pendingRequests = 1, issuedRequests = 1,
        previewRef = Some \<lparr>gPosition = 0, gRotation = 1\<rparr>, resetDeps = True,
        hitDeps = (True, 1), vecs = (\<lambda>_. (0, 0, 0))(0 := (0, 0, - (165 / 128))),
        rots = (\<lambda>_. ())(1 := ()), nextAddr = 2\<rparr>"

section \<open>What each operation leaves unchanged\<close>

lemma onLog_sel [simp]:
  "debugLog (onLog m s) = addLog m (debugLog s)"
  "emitted (onLog m s) = emitted s @ [m]"
  "onLogId (onLog m s) = Suc (onLogId s)"
  "isPresenting (onLog m s) = isPresenting s"
  "models (onLog m s) = models s"
  "isPlacementMode (onLog m s) = isPlacementMode s"
  "isSurfaceDetected (onLog m s) = isSurfaceDetected s"
  "hasLoggedHit (onLog m s) = hasLoggedHit s"
  "isUiBlocked (onLog m s) = isUiBlocked s"
  "timers (onLog m s) = timers s"
  "hitTestSource (onLog m s) = hitTestSource s"
  "pendingRequests (onLog m s) = pendingRequests s"
  "issuedRequests (onLog m s) = issuedRequests s"
  "previewRef (onLog m s) = previewRef s"
  "resetDeps (onLog m s) = resetDeps s"
  "hitDeps (onLog m s) = hitDeps s"
  "vecs (onLog m s) = vecs s"
  "rots (onLog m s) = rots s"
  "nextAddr (onLog m s) = nextAddr s"
  by (simp_all add: onLog_def)

lemma setUiBlocked_sel [simp]:
  "isUiBlocked (setUiBlocked t b s) = b"
  "timers (setUiBlocked t b s) = (if b then timers s @ [t + 500] else timers s)"
  "debugLog (setUiBlocked t b s) = debugLog s"
  "emitted (setUiBlocked t b s) = emitted s"
  "onLogId (setUiBlocked t b s) = onLogId s"
  "isPresenting (setUiBlocked t b s) = isPresenting s"
  "models (setUiBlocked t b s) = models s"
  "isPlacementMode (setUiBlocked t b s) = isPlacementMode s"
  "isSurfaceDetected (setUiBlocked t b s) = isSurfaceDetected s"
  "hasLoggedHit (setUiBlocked t b s) = hasLoggedHit s"
  "hitTestSource (setUiBlocked t b s) = hitTestSource s"
  "pendingRequests (setUiBlocked t b s) = pendingRequests s"
  "issuedRequests (setUiBlocked t b s) = issuedRequests s"
  "previewRef (setUiBlocked t b s) = previewRef s"
  "resetDeps (setUiBlocked t b s) = resetDeps s"
  "hitDeps (setUiBlocked t b s) = hitDeps s"
  "vecs (setUiBlocked t b s) = vecs s"
  "rots (setUiBlocked t b s) = rots s"
  "nextAddr (setUiBlocked t b s) = nextAddr s"
  by (simp_all add: setUiBlocked_def Let_def)

lemma fireTimers_sel [simp]:
  "debugLog (fireTimers t s) = debugLog s"
  "emitted (fireTimers t s) = emitted s"
  "onLogId (fireTimers t s) = onLogId s"
  "isPresenting (fireTimers t s) = isPresenting s"
  "models (fireTimers t s) = models s"
  "isPlacementMode (fireTimers t s) = isPlacementMode s"
  "isSurfaceDetected (fireTimers t s) = isSurfaceDetected s"
  "hasLoggedHit (fireTimers t s) = hasLoggedHit s"
  "hitTestSource (fireTimers t s) = hitTestSource s"
  "pendingRequests (fireTimers t s) = pendingRequests s"
  "issuedRequests (fireTimers t s) = issuedRequests s"
  "previewRef (fireTimers t s) = previewRef s"
  "resetDeps (fireTimers t s) = resetDeps s"
  "hitDeps (fireTimers t s) = hitDeps s"
  "vecs (fireTimers t s) = vecs s"
  "rots (fireTimers t s) = rots s"
  "nextAddr (fireTimers t s) = nextAddr s"
  by (simp_all add: fireTimers_def)

lemma commit_sel [simp]:
  "debugLog (commit L s) = debugLog s"
  "emitted (commit L s) = emitted s"
  "onLogId (commit L s) = onLogId s"
  "isPresenting (commit L s) = isPresenting s"
  "models (commit L s) = models s"
  "isPlacementMode (commit L s) = isPlacementMode s"
  "isUiBlocked (commit L s) = isUiBlocked s"
  "timers (commit L s) = timers s"
  "resetDeps (commit L s) = isPresenting s"
  "hitDeps (commit L s) = (isPresenting s, onLogId s)"
  by (simp_all add: commit_def hitTestEffect_def resetEffect_def syncPreview_def Let_def
      split: option.splits)

lemma useFrame_sel [simp]:
  "isPresenting (useFrame L fr s) = isPresenting s"
  "models (useFrame L fr s) = models s"
  "isPlacementMode (useFrame L fr s) = isPlacementMode s"
  "isUiBlocked (useFrame L fr s) = isUiBlocked s"
  "timers (useFrame L fr s) = timers s"
  "hitTestSource (useFrame L fr s) = hitTestSource s"
  "pendingRequests (useFrame L fr s) = pendingRequests s"
  "issuedRequests (useFrame L fr s) = issuedRequests s"
  "previewRef (useFrame L fr s) = previewRef s"
  "resetDeps (useFrame L fr s) = resetDeps s"
  "hitDeps (useFrame L fr s) = hitDeps s"
  "nextAddr (useFrame L fr s) = nextAddr s"
  by (simp_all add: useFrame_def Let_def split: option.splits)

lemma placeModel_sel [simp]:
  "isPresenting (placeModel n r s) = isPresenting s"
  "isPlacementMode (placeModel n r s) = isPlacementMode s"
  "isSurfaceDetected (placeModel n r s) = isSurfaceDetected s"
  "hasLoggedHit (placeModel n r s) = hasLoggedHit s"
  "isUiBlocked (placeModel n r s) = isUiBlocked s"
  "timers (placeModel n r s) = timers s"
  "hitTestSource (placeModel n r s) = hitTestSource s"
  "pendingRequests (placeModel n r s) = pendingRequests s"
  "issuedRequests (placeModel n r s) = issuedRequests s"
  "previewRef (placeModel n r s) = previewRef s"
  "resetDeps (placeModel n r s) = resetDeps s"
  "hitDeps (placeModel n r s) = hitDeps s"
  by (simp_all add: placeModel_def Let_def split: option.splits)

lemma clearOnClick_sel [simp]:
  "models (clearOnClick s) = []"
  "emitted (clearOnClick s) = emitted s @ [''Scene cleared'', ''Scene Cleared'']"
  "isPresenting (clearOnClick s) = isPresenting s"
  "isPlacementMode (clearOnClick s) = isPlacementMode s"
  "isSurfaceDetected (clearOnClick s) = isSurfaceDetected s"
  "hasLoggedHit (clearOnClick s) = hasLoggedHit s"
  "isUiBlocked (clearOnClick s) = isUiBlocked s"
  "timers (clearOnClick s) = timers s"
  "hitTestSource (clearOnClick s) = hitTestSource s"
  "pendingRequests (clearOnClick s) = pendingRequests s"
  "issuedRequests (clearOnClick s) = issuedRequests s"
  "previewRef (clearOnClick s) = previewRef s"
  "resetDeps (clearOnClick s) = resetDeps s"
  "hitDeps (clearOnClick s) = hitDeps s"
  "vecs (clearOnClick s) = vecs s"
  "rots (clearOnClick s) = rots s"
  "nextAddr (clearOnClick s) = nextAddr s"
  by (simp_all add: clearOnClick_def clearScene_def)

lemma toggleOnClick_sel [simp]:
  "models (toggleOnClick s) = models s"
  "isPresenting (toggleOnClick s) = isPresenting s"
  "isPlacementMode (toggleOnClick s) = (\<not> isPlacementMode s)"
  "isSurfaceDetected (toggleOnClick s) = isSurfaceDetected s"
  "hasLoggedHit (toggleOnClick s) = hasLoggedHit s"
  "isUiBlocked (toggleOnClick s) = isUiBlocked s"
  "timers (toggleOnClick s) = timers s"
  "hitTestSource (toggleOnClick s) = hitTestSource s"
  "pendingRequests (toggleOnClick s) = pendingRequests s"
  "issuedRequests (toggleOnClick s) = issuedRequests s"
  "previewRef (toggleOnClick s) = previewRef s"
  "resetDeps (toggleOnClick s) = resetDeps s"
  "hitDeps (toggleOnClick s) = hitDeps s"
  "vecs (toggleOnClick s) = vecs s"
  "rots (toggleOnClick s) = rots s"
  "nextAddr (toggleOnClick s) = nextAddr s"
  by (simp_all add: toggleOnClick_def Let_def)

section \<open>The log sink keeps the five latest messages\<close>

lemma addLog_take: "addLog m (take 5 xs) = take 5 (m # xs)"
  by (cases xs rule: list.exhaust) (simp_all add: addLog_def numeral_eq_Suc take_Cons')

lemma foldl_addLog: "foldl (\<lambda>prev msg. addLog msg prev) [] msgs = take 5 (rev msgs)"
proof (induction msgs rule: rev_induct)
  case Nil
  show ?case by simp
next
  case (snoc m ms)
  then show ?case by (simp add: addLog_take)
qed

lemma log_ok_onLog: "log_ok s \<Longrightarrow> log_ok (onLog m s)"
  by (simp add: log_ok_def addLog_take)

lemma log_ok_useFrame: "log_ok s \<Longrightarrow> log_ok (useFrame L fr s)"
  by (simp add: log_ok_def useFrame_def Let_def addLog_take split: option.splits)

lemma log_ok_placeModel: "log_ok s \<Longrightarrow> log_ok (placeModel n r s)"
  by (simp add: log_ok_def placeModel_def Let_def addLog_take split: option.splits)

lemma log_ok_clearOnClick: "log_ok s \<Longrightarrow> log_ok (clearOnClick s)"
proof -
  assume "log_ok s"
  then have "log_ok (s\<lparr>models := []\<rparr>)" by (simp add: log_ok_def)
  then show ?thesis unfolding clearOnClick_def clearScene_def by (intro log_ok_onLog)
qed

lemma log_ok_toggleOnClick: "log_ok s \<Longrightarrow> log_ok (toggleOnClick s)"
  by (simp add: log_ok_def toggleOnClick_def Let_def addLog_take)

lemma log_ok_handle: "log_ok s \<Longrightarrow> log_ok (handle L t ev s)"
proof (cases ev)
  case (Frame fr)
  assume "log_ok s"
  with Frame show ?thesis by (simp add: handle_def log_ok_useFrame)
next
  case (Select n r)
  assume "log_ok s"
  with Select show ?thesis by (simp add: handle_def log_ok_placeModel)
next
  case HudClickClear
  assume "log_ok s"
  then have "log_ok (setUiBlocked t True s)" by (simp add: log_ok_def)
  with HudClickClear \<open>log_ok s\<close> show ?thesis
    by (simp add: handle_def handleInteraction_def log_ok_clearOnClick)
next
  case HudClickToggle
  assume "log_ok s"
  then have "log_ok (setUiBlocked t True s)" by (simp add: log_ok_def)
  with HudClickToggle \<open>log_ok s\<close> show ?thesis
    by (simp add: handle_def handleInteraction_def log_ok_toggleOnClick)
qed (simp_all add: handle_def handlePointerDown_def log_ok_def addLog_take)

lemma log_ok_step: "log_ok s \<Longrightarrow> log_ok (step L t ev s)"
proof -
  assume "log_ok s"
  then have "log_ok (fireTimers t s)" by (simp add: log_ok_def)
  then have "log_ok (handle L t ev (fireTimers t s))" by (rule log_ok_handle)
  then show ?thesis by (simp add: step_def log_ok_def)
qed

lemma log_ok_run: "log_ok s \<Longrightarrow> log_ok (run L evs s)"
proof (induction evs arbitrary: s)
  case Nil
  then show ?case by simp
next
  case (Cons e evs)
  then show ?case by (cases e) (simp add: log_ok_step)
qed

text \<open>
  Claim C10. The debug log sink retains at most the five most recent messages, newest
  first: after any sequence of \<^verbatim>\<open>addLog\<close> calls, starting from the empty history, the
  history is the last five messages logged, most recent first. The same holds of the
  history of the running application after any sequence of events, for the messages the
  application has emitted.
\<close>

theorem log_keeps_last_five:
  "foldl (\<lambda>prev msg. addLog msg prev) [] msgs = take 5 (rev msgs)
   \<and> length (foldl (\<lambda>prev msg. addLog msg prev) [] msgs) \<le> 5
   \<and> debugLog (run L evs (init L)) = take 5 (rev (emitted (run L evs (init L))))"
proof -
  have "log_ok (init L)" by (simp add: log_ok_def init_def)
  then have "log_ok (run L evs (init L))" by (rule log_ok_run)
  then show ?thesis by (simp add: foldl_addLog log_ok_def)
qed

section \<open>The interaction gate\<close>

lemma handle_gate_other:
  "\<not> is_hud ev \<Longrightarrow> isUiBlocked (handle L t ev s) = isUiBlocked s \<and> timers (handle L t ev s) = timers s"
  by (cases ev) (simp_all add: handle_def is_hud_def)

lemma handle_gate_hud:
  "is_hud ev \<Longrightarrow> isPresenting s \<Longrightarrow>
   isUiBlocked (handle L t ev s) \<and> timers (handle L t ev s) = timers s @ [t + 500]"
  by (cases ev) (simp_all add: handle_def is_hud_def handlePointerDown_def handleInteraction_def)

lemma step_gate_other:
  "\<not> is_hud ev \<Longrightarrow> isUiBlocked (step L t ev s) = isUiBlocked (fireTimers t s)
     \<and> timers (step L t ev s) = timers (fireTimers t s)"
  by (simp add: step_def handle_gate_other)

lemma step_gate_hud:
  "is_hud ev \<Longrightarrow> isPresenting s \<Longrightarrow>
   isUiBlocked (step L t ev s) \<and> timers (step L t ev s) = timers (fireTimers t s) @ [t + 500]"
  by (simp add: step_def handle_gate_hud)

lemma fireTimers_gate:
  "isUiBlocked (fireTimers t s) = (isUiBlocked s \<and> filter (\<lambda>d. d \<le> t) (timers s) = [])"
  "timers (fireTimers t s) = filter (\<lambda>d. t < d) (timers s)"
  by (auto simp: fireTimers_def filter_empty_conv filter_id_conv not_le)

lemma one_pending_step:
  assumes "one_pending d u s" "\<not> is_hud ev" "t \<le> u"
  shows "one_pending d u (step L t ev s)"
  using assms by (auto simp: one_pending_def step_gate_other fireTimers_gate split: if_splits)

lemma one_pending_run:
  assumes "one_pending d u s" "list_all (\<lambda>(t, ev). t \<le> u \<and> \<not> is_hud ev) evs"
  shows "one_pending d u (run L evs s)"
  using assms
proof (induction evs arbitrary: s)
  case Nil
  then show ?case by simp
next
  case (Cons e evs)
  obtain t ev where e: "e = (t, ev)" by (cases e)
  from Cons.prems e have "one_pending d u (step L t ev s)"
    by (simp add: one_pending_step)
  with Cons e show ?case by simp
qed

lemma one_pending_check:
  "one_pending d u s \<Longrightarrow> isUiBlocked (fireTimers u s) = (u < d)"
  by (auto simp: one_pending_def fireTimers_gate split: if_splits)

lemma placeModel_blocked: "isUiBlocked s \<Longrightarrow> placeModel n r s = s"
  by (simp add: placeModel_def)

text \<open>
  Claim C2. After a single call of \<^verbatim>\<open>setUiBlocked(true)\<close> at time \<open>t\<close> (a press or an
  activation of a HUD button, with no unblock pending before it and no further HUD event
  after it), the gate check of the placement path at a time \<open>u\<close> finds the gate blocked
  exactly when \<open>u < t + 500\<close>; and a world tap within the cool-down leaves the list of
  placed models unchanged, whatever the surface state is.
\<close>

theorem gate_cooldown:
  assumes "isPresenting s" and "timers s = []" and "is_hud hev"
    and "list_all (\<lambda>(t', ev). t' \<le> u \<and> \<not> is_hud ev) evs"
  shows "isUiBlocked (fireTimers u (run L evs (step L t hev s))) = (u < t + 500)
     \<and> (u < t + 500 \<longrightarrow>
          models (step L u (Select now rnd) (run L evs (step L t hev s)))
            = models (run L evs (step L t hev s)))"
proof -
  let ?s1 = "step L t hev s" and ?s2 = "run L evs (step L t hev s)"
  from assms(1-3) have "isUiBlocked ?s1 \<and> timers ?s1 = [t + 500]"
    using step_gate_hud [of hev s L t] by (simp add: fireTimers_gate)
  then have "one_pending (t + 500) u ?s1" by (simp add: one_pending_def)
  from this assms(4) have "one_pending (t + 500) u ?s2" by (rule one_pending_run)
  then have chk: "isUiBlocked (fireTimers u ?s2) = (u < t + 500)" by (rule one_pending_check)
  have "models (step L u (Select now rnd) ?s2) = models ?s2" if "u < t + 500"
    using that chk by (simp add: step_def handle_def placeModel_blocked)
  with chk show ?thesis by blast
qed

section \<open>Invariants of the reachable states\<close>

lemma run_append: "run L (xs @ ys) s = run L ys (run L xs s)"
  by (induction xs arbitrary: s) auto

lemma run_snoc: "run L (xs @ [(t, ev)]) s = step L t ev (run L xs s)"
  by (simp add: run_append)

subsection \<open>Handlers and the store\<close>

lemma placeModel_nextAddr: "nextAddr s \<le> nextAddr (placeModel n r s)"
  by (simp add: placeModel_def Let_def split: option.splits)

lemma handle_previewRef [simp]: "previewRef (handle L t ev s) = previewRef s"
  by (cases ev) (simp_all add: handle_def handlePointerDown_def handleInteraction_def)

lemma handle_nextAddr: "nextAddr s \<le> nextAddr (handle L t ev s)"
  by (cases ev)
     (simp_all add: handle_def handlePointerDown_def handleInteraction_def placeModel_nextAddr)

lemma preview_bound_handle: "preview_bound s \<Longrightarrow> preview_bound (handle L t ev s)"
  using handle_nextAddr [of s L t ev]
  by (auto simp: preview_bound_def split: option.splits)

lemma settled_commit: "preview_bound s \<Longrightarrow> settled (commit L s)"
  by (auto simp: settled_def preview_bound_def commit_def hitTestEffect_def resetEffect_def
      syncPreview_def Let_def split: option.splits)

lemma settled_step: "settled s \<Longrightarrow> settled (step L t ev s)"
proof -
  assume "settled s"
  then have "preview_bound (fireTimers t s)"
    by (simp add: settled_def preview_bound_def split: option.splits)
  then have "preview_bound (handle L t ev (fireTimers t s))" by (rule preview_bound_handle)
  then show ?thesis unfolding step_def by (rule settled_commit)
qed

subsection \<open>Separation of the placed entries from the preview\<close>

lemma sep_useFrame:
  "sep s m \<Longrightarrow> sep (useFrame L fr s) m \<and> pose_of (useFrame L fr s) m = pose_of s m"
  by (auto simp: sep_def pose_of_def useFrame_def Let_def split: option.splits)

lemma sep_placeModel:
  "sep s m \<Longrightarrow> sep (placeModel n r s) m \<and> pose_of (placeModel n r s) m = pose_of s m"
  by (auto simp: sep_def pose_of_def placeModel_def Let_def split: option.splits)

lemma sep_handle:
  "sep s m \<Longrightarrow> sep (handle L t ev s) m \<and> pose_of (handle L t ev s) m = pose_of s m"
proof (cases ev)
  case (Frame fr)
  assume "sep s m"
  with Frame show ?thesis by (simp add: handle_def sep_useFrame)
next
  case (Select n r)
  assume "sep s m"
  with Select show ?thesis by (simp add: handle_def sep_placeModel)
qed (simp_all add: handle_def handlePointerDown_def handleInteraction_def sep_def pose_of_def
      split: option.splits)

lemma sep_commit:
  "sep s m \<Longrightarrow> sep (commit L s) m \<and> pose_of (commit L s) m = pose_of s m"
  by (auto simp: sep_def pose_of_def commit_def hitTestEffect_def resetEffect_def
      syncPreview_def Let_def split: option.splits)

lemma sep_step:
  "sep s m \<Longrightarrow> sep (step L t ev s) m \<and> pose_of (step L t ev s) m = pose_of s m"
proof -
  assume "sep s m"
  then have a: "sep (fireTimers t s) m" "pose_of (fireTimers t s) m = pose_of s m"
    by (simp_all add: sep_def pose_of_def split: option.splits)
  from sep_handle [OF a(1)] a(2)
  have b: "sep (handle L t ev (fireTimers t s)) m"
    "pose_of (handle L t ev (fireTimers t s)) m = pose_of s m" by simp_all
  from sep_commit [OF b(1)] b(2) show ?thesis by (simp add: step_def)
qed

lemma sep_run:
  "sep s m \<Longrightarrow> sep (run L evs s) m \<and> pose_of (run L evs s) m = pose_of s m"
proof (induction evs arbitrary: s)
  case Nil
  then show ?case by simp
next
  case (Cons e evs)
  obtain t ev where e: "e = (t, ev)" by (cases e)
  from sep_step [OF Cons.prems, of L t ev] Cons.IH [of "step L t ev s"] e
  show ?case by simp
qed

subsection \<open>All entries are separated\<close>

lemma models_handle_other:
  "(case ev of Select n r \<Rightarrow> False | HudClickClear \<Rightarrow> False | _ \<Rightarrow> True) \<Longrightarrow>
   models (handle L t ev s) = models s"
  by (cases ev) (simp_all add: handle_def handlePointerDown_def handleInteraction_def)

lemma placeModel_models:
  "models (placeModel n r s) = models s \<or>
   (\<exists>g. previewRef s = Some g \<and>
      models (placeModel n r s) =
        models s @ [\<lparr>position = nextAddr s, rotation = Suc (nextAddr s), ident = gen_id n r\<rparr>]
      \<and> nextAddr (placeModel n r s) = nextAddr s + 2)"
  by (simp add: placeModel_def Let_def split: option.splits)

lemma all_sep_placeModel:
  assumes "preview_bound s" "list_all (sep s) (models s)"
  shows "list_all (sep (placeModel n r s)) (models (placeModel n r s))"
proof -
  have old: "list_all (sep (placeModel n r s)) (models s)"
    using assms(2) sep_placeModel [of s _ n r] by (auto simp: list_all_iff)
  from placeModel_models [of n r s] show ?thesis
  proof
    assume "models (placeModel n r s) = models s"
    with old show ?thesis by simp
  next
    assume "\<exists>g. previewRef s = Some g \<and>
      models (placeModel n r s) =
        models s @ [\<lparr>position = nextAddr s, rotation = Suc (nextAddr s), ident = gen_id n r\<rparr>]
      \<and> nextAddr (placeModel n r s) = nextAddr s + 2"
    then obtain g where g: "previewRef s = Some g"
      and m: "models (placeModel n r s) =
        models s @ [\<lparr>position = nextAddr s, rotation = Suc (nextAddr s), ident = gen_id n r\<rparr>]"
      and a: "nextAddr (placeModel n r s) = nextAddr s + 2" by blast
    from assms(1) g have "gPosition g < nextAddr s" "gRotation g < nextAddr s"
      by (simp_all add: preview_bound_def)
    with g a have "sep (placeModel n r s)
        \<lparr>position = nextAddr s, rotation = Suc (nextAddr s), ident = gen_id n r\<rparr>"
      by (simp add: sep_def)
    with old m show ?thesis by simp
  qed
qed

lemma all_sep_handle:
  assumes "preview_bound s" "list_all (sep s) (models s)"
  shows "list_all (sep (handle L t ev s)) (models (handle L t ev s))"
proof (cases ev)
  case (Select n r)
  with assms show ?thesis by (simp add: handle_def all_sep_placeModel)
next
  case HudClickClear
  with assms(2) show ?thesis by (simp add: handle_def handleInteraction_def)
next
  case EnterAR
  then have "models (handle L t ev s) = models s" by (simp add: models_handle_other)
  with assms(2) sep_handle [of s _ L t ev] show ?thesis by (auto simp: list_all_iff)
next
  case ExitAR
  then have "models (handle L t ev s) = models s" by (simp add: models_handle_other)
  with assms(2) sep_handle [of s _ L t ev] show ?thesis by (auto simp: list_all_iff)
next
  case (HitTestResolved x)
  then have "models (handle L t ev s) = models s" by (simp add: models_handle_other)
  with assms(2) sep_handle [of s _ L t ev] show ?thesis by (auto simp: list_all_iff)
next
  case (HitTestFailed x)
  then have "models (handle L t ev s) = models s" by (simp add: models_handle_other)
  with assms(2) sep_handle [of s _ L t ev] show ?thesis by (auto simp: list_all_iff)
next
  case (Frame x)
  then have "models (handle L t ev s) = models s" by (simp add: models_handle_other)
  with assms(2) sep_handle [of s _ L t ev] show ?thesis by (auto simp: list_all_iff)
next
  case HudPointerDown
  then have "models (handle L t ev s) = models s" by (simp add: models_handle_other)
  with assms(2) sep_handle [of s _ L t ev] show ?thesis by (auto simp: list_all_iff)
next
  case HudClickToggle
  then have "models (handle L t ev s) = models s" by (simp add: models_handle_other)
  with assms(2) sep_handle [of s _ L t ev] show ?thesis by (auto simp: list_all_iff)
qed

lemma inv_step: "inv s \<Longrightarrow> inv (step L t ev s)"
proof -
  assume i: "inv s"
  then have pb: "preview_bound (fireTimers t s)"
    by (simp add: inv_def settled_def preview_bound_def split: option.splits)
  have "sep (fireTimers t s) = sep s"
    by (rule ext) (simp add: sep_def split: option.splits)
  with i have "list_all (sep (fireTimers t s)) (models (fireTimers t s))"
    by (simp add: inv_def)
  with pb have "list_all (sep (handle L t ev (fireTimers t s))) (models (handle L t ev (fireTimers t s)))"
    by (rule all_sep_handle)
  then have "list_all (sep (step L t ev s)) (models (step L t ev s))"
    using sep_commit [of "handle L t ev (fireTimers t s)" _ L]
    by (auto simp: step_def list_all_iff)
  moreover from i have "settled (step L t ev s)" by (simp add: inv_def settled_step)
  ultimately show ?thesis by (simp add: inv_def)
qed

lemma inv_init: "inv (init L)"
  by (simp add: inv_def settled_def preview_bound_def init_def)

lemma inv_run: "inv s \<Longrightarrow> inv (run L evs s)"
proof (induction evs arbitrary: s)
  case Nil
  then show ?case by simp
next
  case (Cons e evs)
  then show ?case by (cases e) (simp add: inv_step)
qed

lemma inv_reachable: "inv (run L evs (init L))"
  by (rule inv_run) (rule inv_init)

section \<open>Placement\<close>

lemma placeModel_noop:
  "\<not> (isPresenting s \<and> isPlacementMode s \<and> \<not> isUiBlocked s) \<Longrightarrow> placeModel n r s = s"
  by (auto simp: placeModel_def)

lemma placeModel_placed:
  assumes "isPresenting s" "isPlacementMode s" "\<not> isUiBlocked s" "isSurfaceDetected s"
    and "previewRef s = Some g"
  shows "models (placeModel n r s) =
           models s @ [\<lparr>position = nextAddr s, rotation = Suc (nextAddr s), ident = gen_id n r\<rparr>]"
    and "vecs (placeModel n r s) (nextAddr s) = vecs s (gPosition g)"
    and "rots (placeModel n r s) (Suc (nextAddr s)) = rots s (gRotation g)"
    and "emitted (placeModel n r s) = emitted s @ [''Model placed'']"
    and "debugLog (placeModel n r s) = addLog ''Model placed'' (debugLog s)"
    and "nextAddr (placeModel n r s) = nextAddr s + 2"
  using assms by (simp_all add: placeModel_def Let_def)

lemma placeModel_no_surface:
  assumes "isPresenting s" "isPlacementMode s" "\<not> isUiBlocked s" "\<not> isSurfaceDetected s"
  shows "models (placeModel n r s) = models s"
    and "emitted (placeModel n r s) = emitted s @ [''Find a surface first'']"
    and "debugLog (placeModel n r s) = addLog ''Find a surface first'' (debugLog s)"
  using assms by (simp_all add: placeModel_def Let_def)

text \<open>
  Claim C1. In every reachable state, \<^verbatim>\<open>placeModel\<close> changes nothing unless the AR
  session is active, placement mode is on and the gate is not blocked. Given all three:
  when a surface is detected it appends exactly one instance, whose pose is the current
  pose of the preview, and emits \<open>Model placed\<close>; when no surface is detected it leaves
  the placed models unchanged and emits \<open>Find a surface first\<close>.
\<close>

theorem attemptPlacement_cases:
  assumes "s = run L pre (init L)"
  shows "(\<not> (isPresenting s \<and> isPlacementMode s \<and> \<not> isUiBlocked s) \<longrightarrow>
            placeModel now rnd s = s)
     \<and> (isPresenting s \<and> isPlacementMode s \<and> \<not> isUiBlocked s \<and> isSurfaceDetected s \<longrightarrow>
            butlast (models (placeModel now rnd s)) = models s
          \<and> length (models (placeModel now rnd s)) = Suc (length (models s))
          \<and> Some (pose_of (placeModel now rnd s) (last (models (placeModel now rnd s))))
              = preview_pose s
          \<and> emitted (placeModel now rnd s) = emitted s @ [''Model placed'']
          \<and> debugLog (placeModel now rnd s) = addLog ''Model placed'' (debugLog s))
     \<and> (isPresenting s \<and> isPlacementMode s \<and> \<not> isUiBlocked s \<and> \<not> isSurfaceDetected s \<longrightarrow>
            models (placeModel now rnd s) = models s
          \<and> emitted (placeModel now rnd s) = emitted s @ [''Find a surface first'']
          \<and> debugLog (placeModel now rnd s) = addLog ''Find a surface first'' (debugLog s))"
proof (intro conjI impI)
  assume "\<not> (isPresenting s \<and> isPlacementMode s \<and> \<not> isUiBlocked s)"
  then show "placeModel now rnd s = s" by (rule placeModel_noop)
next
  assume c: "isPresenting s \<and> isPlacementMode s \<and> \<not> isUiBlocked s \<and> isSurfaceDetected s"
  from assms have "settled s" using inv_reachable [of L pre] by (simp add: inv_def)
  with c obtain g where g: "previewRef s = Some g" by (auto simp: settled_def)
  note p = placeModel_placed [of s g now rnd]
  from c g show "butlast (models (placeModel now rnd s)) = models s" by (simp add: p)
  from c g show "length (models (placeModel now rnd s)) = Suc (length (models s))"
    by (simp add: p)
  from c g show "Some (pose_of (placeModel now rnd s) (last (models (placeModel now rnd s))))
              = preview_pose s" by (simp add: p pose_of_def preview_pose_def)
  from c g show "emitted (placeModel now rnd s) = emitted s @ [''Model placed'']"
    by (simp add: p)
  from c g show "debugLog (placeModel now rnd s) = addLog ''Model placed'' (debugLog s)"
    by (simp add: p)
next
  assume c: "isPresenting s \<and> isPlacementMode s \<and> \<not> isUiBlocked s \<and> \<not> isSurfaceDetected s"
  note p = placeModel_no_surface [of s now rnd]
  from c show "models (placeModel now rnd s) = models s" by (simp add: p)
  from c show "emitted (placeModel now rnd s) = emitted s @ [''Find a surface first'']"
    by (simp add: p)
  from c show "debugLog (placeModel now rnd s) = addLog ''Find a surface first'' (debugLog s)"
    by (simp add: p)
qed

subsection \<open>The surface flag follows the latest poll\<close>

lemma step_flags_Frame:
  "isPresenting (step L t (Frame fr) s) = isPresenting s"
  "isPlacementMode (step L t (Frame fr) s) = isPlacementMode s"
  "resetDeps (step L t (Frame fr) s) = isPresenting s"
  by (simp_all add: step_def handle_def)



lemma commit_detected:
  "resetDeps s = isPresenting s \<Longrightarrow> isSurfaceDetected (commit L s) = isSurfaceDetected s"
  by (simp add: commit_def hitTestEffect_def resetEffect_def syncPreview_def Let_def
      split: option.splits)



subsection \<open>Placed poses are copies\<close>

lemma step_Select_placed:
  assumes "inv s" "isPresenting s" "isPlacementMode s" "\<not> isUiBlocked (fireTimers t s)"
    "isSurfaceDetected s"
  shows "\<exists>m. models (step L t (Select now rnd) s) = models s @ [m]
           \<and> Some (pose_of (step L t (Select now rnd) s) m) = preview_pose s
           \<and> ident m = gen_id now rnd"
proof -
  let ?f = "fireTimers t s" and ?m = "\<lparr>position = nextAddr s, rotation = Suc (nextAddr s),
        ident = gen_id now rnd\<rparr>"
  from assms(1-3) obtain g where g: "previewRef s = Some g"
    by (auto simp: inv_def settled_def)
  from assms g have c: "isPresenting ?f" "isPlacementMode ?f" "\<not> isUiBlocked ?f"
    "isSurfaceDetected ?f" "previewRef ?f = Some g" by simp_all
  note p = placeModel_placed [OF c, of now rnd]
  have m: "models (step L t (Select now rnd) s) = models s @ [?m]"
    using c(1) by (simp add: step_def handle_def p)
  from assms(1) g have b: "gPosition g < nextAddr s" "gRotation g < nextAddr s"
    by (simp_all add: inv_def settled_def preview_bound_def)
  have "sep (placeModel now rnd ?f) ?m" using b g p(6)
    by (simp add: sep_def)
  from sep_commit [OF this, of L]
  have "pose_of (step L t (Select now rnd) s) ?m = pose_of (placeModel now rnd ?f) ?m"
    using c(1) by (simp add: step_def handle_def)
  also have "\<dots> = (vecs s (gPosition g), rots s (gRotation g))"
    using p(2,3) by (simp add: pose_of_def)
  finally have "Some (pose_of (step L t (Select now rnd) s) ?m) = preview_pose s"
    using g by (simp add: preview_pose_def)
  moreover have "ident ?m = gen_id now rnd" by simp
  ultimately show ?thesis using m by blast
qed

text \<open>
  Claim C6. When a tap places a model, the pose stored with the new (last) entry is the
  pose of the preview at that moment; and whatever events follow, frames that move the
  preview included, the stored pose of every entry of the list stays what it was.
\<close>

theorem placed_pose_is_copy:
  assumes "s = run L pre (init L)" and "isPresenting s" and "isPlacementMode s"
    and "\<not> isUiBlocked (fireTimers t s)" and "isSurfaceDetected s"
  shows "Some (pose_of (step L t (Select now rnd) s) (last (models (step L t (Select now rnd) s))))
           = preview_pose s
     \<and> list_all (\<lambda>m. pose_of (run L evs (step L t (Select now rnd) s)) m
                        = pose_of (step L t (Select now rnd) s) m)
         (models (step L t (Select now rnd) s))"
proof -
  let ?s1 = "step L t (Select now rnd) s"
  from assms(1) have i: "inv s" using inv_reachable [of L pre] by simp
  from step_Select_placed [OF i assms(2-5), of L now rnd]
  have a: "Some (pose_of ?s1 (last (models ?s1))) = preview_pose s" by auto
  from i have "inv ?s1" by (rule inv_step)
  then have "list_all (sep ?s1) (models ?s1)" by (simp add: inv_def)
  then have "list_all (\<lambda>m. pose_of (run L evs ?s1) m = pose_of ?s1 m) (models ?s1)"
    using sep_run [of ?s1 _ L evs] by (auto simp: list_all_iff)
  with a show ?thesis by simp
qed

section \<open>The first-detection message\<close>

lemma sd_count_upd [simp]:
  "sd_count (fireTimers t s) = sd_count s"
  "sd_count (commit L s) = sd_count s"
  "sd_count (setUiBlocked t b s) = sd_count s"
  "sd_count (clearOnClick s) = sd_count s"
  by (simp_all add: sd_count_def)

lemma sd_count_toggle [simp]: "sd_count (toggleOnClick s) = sd_count s"
  by (simp add: sd_count_def toggleOnClick_def Let_def)

lemma sd_count_placeModel [simp]: "sd_count (placeModel n r s) = sd_count s"
  by (simp add: sd_count_def placeModel_def Let_def split: option.splits)




lemma detects_fireTimers [simp]: "detects (fireTimers t s) ev = detects s ev"
  by (simp add: detects_def split: event.splits)






section \<open>Identifiers and the floating preview\<close>

subsection \<open>Identifiers\<close>

lemma of_char_digit: "d < 10 \<Longrightarrow> (of_char (digit_char d) :: nat) = 48 + d"
  by (simp add: digit_char_def)

lemma dec_value_decimal: "dec_value (decimal n) = n"
proof (induction n rule: decimal.induct)
  case (1 n)
  show ?case
  proof (cases "n < 10")
    case True
    then have "decimal n = [digit_char n]" by (subst decimal.simps) simp
    with True show ?thesis by (simp add: dec_value_def of_char_digit)
  next
    case False
    with 1 have "dec_value (decimal (n div 10)) = n div 10" by simp
    moreover have "decimal n = decimal (n div 10) @ [digit_char (n mod 10)]"
      using False by (subst decimal.simps) simp
    ultimately show ?thesis
      by (simp add: dec_value_def of_char_digit)
  qed
qed

lemma decimal_inj: "decimal n = decimal m \<Longrightarrow> n = m"
proof -
  assume "decimal n = decimal m"
  then have "dec_value (decimal n) = dec_value (decimal m)" by (rule arg_cong)
  then show ?thesis by (simp only: dec_value_decimal)
qed

lemma digit_char_not_dash: "d < 10 \<Longrightarrow> digit_char d \<noteq> CHR ''-''"
proof
  assume "d < 10" and "digit_char d = CHR ''-''"
  then have "(of_char (digit_char d) :: nat) = of_char (CHR ''-'')" by simp
  with \<open>d < 10\<close> show False by (simp add: of_char_digit)
qed

lemma decimal_no_dash: "CHR ''-'' \<notin> set (decimal n)"
proof (induction n rule: decimal.induct)
  case (1 n)
  show ?case
  proof (cases "n < 10")
    case True
    then show ?thesis using digit_char_not_dash [of n] by (subst decimal.simps) auto
  next
    case False
    with 1 have "CHR ''-'' \<notin> set (decimal (n div 10))" by simp
    moreover have "digit_char (n mod 10) \<noteq> CHR ''-''" by (rule digit_char_not_dash) simp
    ultimately show ?thesis using False by (subst decimal.simps) auto
  qed
qed

lemma split_at_first:
  assumes "xs @ c # ys = xs' @ c # ys'" "c \<notin> set xs" "c \<notin> set xs'"
  shows "xs = xs' \<and> ys = ys'"
proof -
  have tw: "takeWhile (\<lambda>x. x \<noteq> c) (zs @ c # ws) = zs" if "c \<notin> set zs" for zs ws
    using that by (induction zs) auto
  from assms(1) have "takeWhile (\<lambda>x. x \<noteq> c) (xs @ c # ys)
      = takeWhile (\<lambda>x. x \<noteq> c) (xs' @ c # ys')" by simp
  then have "xs = xs'" by (simp add: tw [OF assms(2)] tw [OF assms(3)])
  with assms(1) show ?thesis by simp
qed

lemma gen_id_inj: "(gen_id n r = gen_id n' r') = (n = n' \<and> r = r')"
proof
  assume "gen_id n r = gen_id n' r'"
  then have "decimal n @ CHR ''-'' # r = decimal n' @ CHR ''-'' # r'"
    by (simp add: gen_id_def)
  from split_at_first [OF this decimal_no_dash decimal_no_dash]
  have a: "decimal n = decimal n'" and b: "r = r'" by simp_all
  from decimal_inj [OF a] b show "n = n' \<and> r = r'" by simp
next
  assume "n = n' \<and> r = r'"
  then show "gen_id n r = gen_id n' r'" by simp
qed

lemma step_clear:
  assumes "isPresenting s" "resetDeps s = isPresenting s"
  shows "models (step L t HudClickClear s) = []"
    and "isPresenting (step L t HudClickClear s)"
    and "isPlacementMode (step L t HudClickClear s) = isPlacementMode s"
    and "isSurfaceDetected (step L t HudClickClear s) = isSurfaceDetected s"
proof -
  let ?h = "handle L t HudClickClear (fireTimers t s)"
  have h: "models ?h = []" "isPresenting ?h" "isPlacementMode ?h = isPlacementMode s"
    "isSurfaceDetected ?h = isSurfaceDetected s" "resetDeps ?h = isPresenting ?h"
    using assms by (simp_all add: handle_def handleInteraction_def)
  show "models (step L t HudClickClear s) = []" using h(1) by (simp add: step_def)
  show "isPresenting (step L t HudClickClear s)" using h(2) by (simp add: step_def)
  show "isPlacementMode (step L t HudClickClear s) = isPlacementMode s"
    using h(3) by (simp add: step_def)
  show "isSurfaceDetected (step L t HudClickClear s) = isSurfaceDetected s"
    using h(4) commit_detected [OF h(5), of L] by (simp add: step_def)
qed

text \<open>
  Claim C7, as amended. Activating the Clear Scene button in a reachable state in AR
  leaves the list of placed models empty; a tap that is then accepted at a detected
  surface adds one instance, whose id is \<open>gen_id now rnd\<close>; and two generated ids are equal
  exactly when both the time stamps and the random suffixes they were built from are
  equal. (So the new id differs from every id issued before from a different time stamp
  or a different suffix; nothing makes the pairs differ.)
\<close>

theorem clear_then_add_id:
  assumes "s = run L pre (init L)" and "isPresenting s"
  shows "models (step L t HudClickClear s) = []
     \<and> (isPlacementMode s \<and> isSurfaceDetected s
          \<and> \<not> isUiBlocked (fireTimers u (step L t HudClickClear s)) \<longrightarrow>
          map ident (models (step L u (Select now rnd) (step L t HudClickClear s)))
            = [gen_id now rnd])
     \<and> ((gen_id now rnd = gen_id now' rnd') = (now = now' \<and> rnd = rnd'))"
proof -
  let ?c = "step L t HudClickClear s"
  from assms(1) have i: "inv s" using inv_reachable [of L pre] by simp
  then have r: "resetDeps s = isPresenting s" by (simp add: inv_def settled_def)
  note c = step_clear [OF assms(2) r, of L t]
  from i have ic: "inv ?c" by (rule inv_step)
  have "map ident (models (step L u (Select now rnd) ?c)) = [gen_id now rnd]"
    if "isPlacementMode s \<and> isSurfaceDetected s \<and> \<not> isUiBlocked (fireTimers u ?c)"
  proof -
    from that c have "isPlacementMode ?c" "\<not> isUiBlocked (fireTimers u ?c)"
      "isSurfaceDetected ?c" by simp_all
    from step_Select_placed [OF ic c(2) this, of L now rnd] c(1)
    show ?thesis by auto
  qed
  with c(1) show ?thesis by (simp add: gen_id_inj)
qed

subsection \<open>The floating preview\<close>

lemma lerp_towards: "lerp p T a = towards T (1 - a) p"
  by (cases p; cases T) (simp add: lerp_def towards_def algebra_simps)

lemma towards_towards: "towards T k (towards T j p) = towards T (j * k) p"
  by (cases p; cases T) (simp add: towards_def algebra_simps)

lemma towards_one: "towards T 1 p = p"
  by (cases p; cases T) (simp add: towards_def)

lemma useFrame_miss:
  assumes "isPresenting s" "isPlacementMode s" "hasFrame fr"
    "hitTest (hitTestSource s) fr = None" "previewRef s = Some g"
  shows "vecs (useFrame L fr s) (gPosition g)
           = lerp (vecs s (gPosition g)) (applyMatrix4 (0, 0, - 1.5) (camMatrixWorld fr))
               (delta fr * 5)"
    and "onLogId (useFrame L fr s) = onLogId s"
  using assms by (simp_all add: useFrame_def Let_def)

lemma syncPreview_settled: "settled s \<Longrightarrow> syncPreview L s = s"
  by (cases "previewRef s") (auto simp: settled_def syncPreview_def)

lemma commit_quiet:
  assumes "settled s"
  shows "vecs (commit L s) = vecs s" and "previewRef (commit L s) = previewRef s"
    and "hitTestSource (commit L s) = hitTestSource s"
  using assms
  by (simp_all add: commit_def syncPreview_settled)
     (simp_all add: settled_def hitTestEffect_def resetEffect_def)

lemma step_miss:
  assumes "settled s" "isPresenting s" "isPlacementMode s" "hasFrame fr"
    "hitTest (hitTestSource s) fr = None"
  shows "preview_position (step L t (Frame fr) s)
           = map_option (towards (applyMatrix4 (0, 0, - 1.5) (camMatrixWorld fr))
               (1 - delta fr * 5)) (preview_position s)"
    and "hitTestSource (step L t (Frame fr) s) = hitTestSource s"
proof -
  let ?f = "fireTimers t s" and ?u = "useFrame L fr (fireTimers t s)"
  from assms(1-3) obtain g where g: "previewRef s = Some g" by (auto simp: settled_def)
  from assms g have c: "isPresenting ?f" "isPlacementMode ?f" "hasFrame fr"
    "hitTest (hitTestSource ?f) fr = None" "previewRef ?f = Some g" by simp_all
  note u = useFrame_miss [OF c, of L]
  from assms(1) u(2) have "settled ?u"
    by (simp add: settled_def preview_bound_def split: option.splits)
  note q = commit_quiet [OF this, of L]
  show "hitTestSource (step L t (Frame fr) s) = hitTestSource s"
    using q(3) by (simp add: step_def handle_def)
  show "preview_position (step L t (Frame fr) s)
           = map_option (towards (applyMatrix4 (0, 0, - 1.5) (camMatrixWorld fr))
               (1 - delta fr * 5)) (preview_position s)"
    using q(1,2) u(1) g
    by (simp add: step_def handle_def preview_position_def lerp_towards)
qed

lemma run_miss:
  assumes "settled s" "isPresenting s" "isPlacementMode s"
    and "list_all (\<lambda>(t, fr). hasFrame fr \<and> camMatrixWorld fr = M
                     \<and> hitTest (hitTestSource s) fr = None) frs"
  shows "preview_position (run L (frames frs) s)
           = map_option (towards (applyMatrix4 (0, 0, - 1.5) M)
               (prod_list (map (\<lambda>(t, fr). 1 - delta fr * 5) frs))) (preview_position s)"
  using assms
proof (induction frs arbitrary: s)
  case Nil
  show ?case by (simp add: frames_def towards_one option.map_ident cong: option.map_cong)
next
  case (Cons a frs)
  obtain t fr where a: "a = (t, fr)" by (cases a)
  let ?s1 = "step L t (Frame fr) s"
  from Cons.prems(4) a have fr: "hasFrame fr" "camMatrixWorld fr = M"
    "hitTest (hitTestSource s) fr = None"
    and rest: "list_all (\<lambda>(t, fr). hasFrame fr \<and> camMatrixWorld fr = M
                     \<and> hitTest (hitTestSource s) fr = None) frs" by simp_all
  note st = step_miss [OF Cons.prems(1-3) fr(1,3), of L t]
  have 1: "settled ?s1" using Cons.prems(1) by (rule settled_step)
  have 2: "isPresenting ?s1" "isPlacementMode ?s1"
    using Cons.prems(2,3) by (simp_all add: step_flags_Frame)
  from rest st(2) have 3: "list_all (\<lambda>(t, fr). hasFrame fr \<and> camMatrixWorld fr = M
                     \<and> hitTest (hitTestSource ?s1) fr = None) frs" by simp
  from Cons.IH [OF 1 2 3] st(1) fr(2) a show ?case
    by (cases "preview_position s") (simp_all add: frames_def towards_towards mult.commute)
qed

text \<open>
  Claim C8, as amended. While no surface is detected, each frame tick moves the preview
  position by a linear interpolation towards the camera target with factor \<open>5 * delta\<close>.
  With a fixed camera target \<open>T\<close>, after ticks with deltas \<open>d\<^sub>1, \<dots>, d\<^sub>n\<close> the offset of the
  preview from \<open>T\<close> is the initial offset times the product of the \<open>1 - 5 * d\<^sub>i\<close>.
\<close>

theorem preview_follow_is_lerp:
  assumes "s = run L pre (init L)" and "isPresenting s" and "isPlacementMode s"
    and "list_all (\<lambda>(t, fr). hasFrame fr \<and> camMatrixWorld fr = M
                     \<and> hitTest (hitTestSource s) fr = None) frs"
  shows "preview_position (run L (frames frs) s)
           = map_option (towards (applyMatrix4 (0, 0, - 1.5) M)
               (prod_list (map (\<lambda>(t, fr). 1 - delta fr * 5) frs))) (preview_position s)
     \<and> towards T (1 - a) p = lerp p T a"
proof -
  from assms(1) have "settled s" using inv_reachable [of L pre] by (simp add: inv_def)
  from run_miss [OF this assms(2-4), of L] show ?thesis by (simp add: lerp_towards)
qed

section \<open>Example runs\<close>

text \<open>The runs are evaluated one step at a time.\<close>

lemmas eval_defs = step_def handle_def commit_def syncPreview_def resetEffect_def
  hitTestEffect_def useFrame_def placeModel_def hitTest_def handlePointerDown_def
  handleInteraction_def clearOnClick_def clearScene_def toggleOnClick_def setUiBlocked_def
  fireTimers_def onLog_def addLog_def flat_three_def hit_frame_def miss_frame_def
  identity4_def Let_def decomposePosition_def applyMatrix4_def lerp_def

text \<open>Addresses and counters are small; they are compared in unary.\<close>

lemma nat_4_unary: "(4::nat) = Suc (Suc (Suc (Suc 0)))"
  by simp

lemma nat_5_unary: "(5::nat) = Suc (Suc (Suc (Suc (Suc 0))))"
  by simp

lemma nat_6_unary: "(6::nat) = Suc (Suc (Suc (Suc (Suc (Suc 0)))))"
  by simp

lemmas small_nats = numeral_2_eq_2 numeral_3_eq_3 nat_4_unary nat_5_unary nat_6_unary

lemma step_st_ar: "step flat_three 0 EnterAR (init flat_three) = st_ar"
  by (simp add: init_def st_ar_def small_nats eval_defs)

lemma step_st_src: "step flat_three 100 (HitTestResolved 7) st_ar = st_src"
  by (simp add: st_ar_def st_src_def small_nats eval_defs)

lemma step_st_det: "step flat_three 200 (Frame hit_frame) st_src = st_det"
  by (simp add: st_src_def st_det_def small_nats eval_defs)

lemma step_st_down: "step flat_three 1000 HudPointerDown st_det = st_down"
  by (simp add: st_det_def st_down_def small_nats eval_defs)

lemma step_st_clr: "step flat_three 1400 HudClickClear st_down = st_clr"
  by (simp add: st_down_def st_clr_def small_nats eval_defs)

lemma step_st_tap: "step flat_three 1600 (Select 42 ''abc'') st_clr = st_tap"
  by (simp add: st_clr_def st_tap_def small_nats eval_defs)

lemma step_st_p1: "step flat_three 300 (Select 42 ''abc'') st_det = st_p1"
  by (simp add: st_det_def st_p1_def small_nats eval_defs)

lemma step_st_p2: "step flat_three 1000 HudClickClear st_p1 = st_p2"
  by (simp add: st_p1_def st_p2_def small_nats eval_defs)

lemma step_st_p3: "step flat_three 2000 (Select 42 ''abc'') st_p2 = st_p3"
  by (simp add: st_p2_def st_p3_def small_nats eval_defs)

lemma step_st_p1m: "step flat_three 400 (Frame (miss_frame (1 / 8))) st_p1 = st_p1m"
  by (simp add: st_p1_def st_p1m_def small_nats eval_defs)

lemma step_st_fail: "step flat_three 50 (HitTestFailed ''x'') st_ar = st_fail"
  by (simp add: st_ar_def st_fail_def small_nats eval_defs)

lemma step_st_re: "step flat_three 60 (HitTestResolved 8) st_fail = st_re"
  by (simp add: st_fail_def st_re_def small_nats eval_defs)

lemma step_st_redet: "step flat_three 70 (Frame hit_frame) st_re = st_redet"
  by (simp add: st_re_def st_redet_def small_nats eval_defs)

lemma step_st_a: "step flat_three 250 (Frame (miss_frame (1 / 4))) st_ar = st_a"
  by (simp add: st_ar_def st_a_def small_nats eval_defs)

lemma step_st_b1: "step flat_three 125 (Frame (miss_frame (1 / 8))) st_ar = st_b1"
  by (simp add: st_ar_def st_b1_def small_nats eval_defs)

lemma step_st_b2: "step flat_three 250 (Frame (miss_frame (1 / 8))) st_b1 = st_b2"
  by (simp add: st_b1_def st_b2_def small_nats eval_defs)

lemma run_st_ar: "run flat_three [(0, EnterAR)] (init flat_three) = st_ar"
  by (simp add: step_st_ar)


lemma run_st_det:
  "run flat_three [(0, EnterAR), (100, HitTestResolved 7), (200, Frame hit_frame)]
     (init flat_three) = st_det"
  by (simp add: step_st_ar step_st_src step_st_det)

lemma run_st_p1:
  "run flat_three [(0, EnterAR), (100, HitTestResolved 7), (200, Frame hit_frame),
     (300, Select 42 ''abc'')] (init flat_three) = st_p1"
  by (simp add: step_st_ar step_st_src step_st_det step_st_p1)

lemma gen_id_42: "gen_id 42 ''abc'' = ''model-42-abc''"
  by code_simp

text \<open>Three taps: outside AR the tap changes nothing; after a detection it places a copy of
  the preview pose \<open>(1, 0, -2)\<close>; before any detection it only logs.\<close>

theorem attemptPlacement_cases_witness:
  "placeModel 42 ''abc'' (init flat_three) = init flat_three
   \<and> butlast (models (placeModel 42 ''abc'' st_det)) = []
   \<and> length (models (placeModel 42 ''abc'' st_det)) = 1
   \<and> Some (pose_of (placeModel 42 ''abc'' st_det) (last (models (placeModel 42 ''abc'' st_det))))
       = Some ((1, 0, - 2), ())
   \<and> emitted (placeModel 42 ''abc'' st_det)
       = [''Initializing AR...'', ''Surface detected!'', ''Model placed'']
   \<and> models (placeModel 42 ''abc'' st_ar) = []
   \<and> emitted (placeModel 42 ''abc'' st_ar) = [''Initializing AR...'', ''Find a surface first'']"
proof -
  have r0: "init flat_three = run flat_three [] (init flat_three)" by simp
  have f0: "\<not> isPresenting (init flat_three)" by (simp add: init_def)
  have f1: "isPresenting st_det \<and> isPlacementMode st_det \<and> \<not> isUiBlocked st_det
      \<and> isSurfaceDetected st_det" by (simp add: st_det_def)
  have f2: "isPresenting st_ar \<and> isPlacementMode st_ar \<and> \<not> isUiBlocked st_ar
      \<and> \<not> isSurfaceDetected st_ar" by (simp add: st_ar_def)
  have v1: "models st_det = []" "preview_pose st_det = Some ((1, 0, - 2), ())"
    "emitted st_det = [''Initializing AR...'', ''Surface detected!'']"
    by (simp_all add: st_det_def preview_pose_def)
  have v2: "models st_ar = []" "emitted st_ar = [''Initializing AR...'']"
    by (simp_all add: st_ar_def)
  from attemptPlacement_cases [OF r0, of 42 "''abc''"] f0
  have a: "placeModel 42 ''abc'' (init flat_three) = init flat_three" by blast
  from attemptPlacement_cases [OF run_st_det [symmetric], of 42 "''abc''"] f1 v1
  have b: "butlast (models (placeModel 42 ''abc'' st_det)) = []
   \<and> length (models (placeModel 42 ''abc'' st_det)) = 1
   \<and> Some (pose_of (placeModel 42 ''abc'' st_det) (last (models (placeModel 42 ''abc'' st_det))))
       = Some ((1, 0, - 2), ())
   \<and> emitted (placeModel 42 ''abc'' st_det)
       = [''Initializing AR...'', ''Surface detected!'', ''Model placed'']" by simp
  from attemptPlacement_cases [OF run_st_ar [symmetric], of 42 "''abc''"] f2 v2
  have c: "models (placeModel 42 ''abc'' st_ar) = []
   \<and> emitted (placeModel 42 ''abc'' st_ar) = [''Initializing AR...'', ''Find a surface first'']"
    by simp
  from a b c show ?thesis by blast
qed

text \<open>With a surface detected, Clear Scene is activated at 1000 ms and the hit-test source
  is renewed at 1200 ms; a tap at 1400 ms finds the gate blocked and places nothing, a check
  at 1500 ms finds it open.\<close>

theorem gate_cooldown_witness:
  "isUiBlocked (fireTimers 1400
     (run flat_three [(1200, HitTestResolved 9)] (step flat_three 1000 HudClickClear st_det)))
   \<and> models (step flat_three 1400 (Select 42 ''abc'')
        (run flat_three [(1200, HitTestResolved 9)] (step flat_three 1000 HudClickClear st_det)))
     = models (run flat_three [(1200, HitTestResolved 9)] (step flat_three 1000 HudClickClear st_det))
   \<and> \<not> isUiBlocked (fireTimers 1500
     (run flat_three [(1200, HitTestResolved 9)] (step flat_three 1000 HudClickClear st_det)))"
proof -
  have h: "isPresenting st_det" "timers st_det = []" "is_hud HudClickClear"
    by (simp_all add: st_det_def is_hud_def)
  have e1: "list_all (\<lambda>(t', ev). t' \<le> 1400 \<and> \<not> is_hud ev) [(1200 :: nat, HitTestResolved 9)]"
    by (simp add: is_hud_def)
  have e2: "list_all (\<lambda>(t', ev). t' \<le> 1500 \<and> \<not> is_hud ev) [(1200 :: nat, HitTestResolved 9)]"
    by (simp add: is_hud_def)
  from gate_cooldown [OF h e1, of flat_three 1000 42 "''abc''"]
    gate_cooldown [OF h e2, of flat_three 1000 42 "''abc''"]
  show ?thesis by simp
qed

text \<open>
  Claim C3 states that every call of \<^verbatim>\<open>setUiBlocked(true)\<close> at time \<open>t\<close> moves the unblock
  deadline to \<open>t + 500\<close>, so that after the most recent call every gate check before
  \<open>t + 500\<close> is rejected, also when an earlier call is still pending. The program keeps a
  flag and one timer per call, and never cancels a timer: the timer of the earlier call
  clears the flag at its own deadline. In the run below a HUD button is pressed at 1000 ms
  (\<^verbatim>\<open>handlePointerDown\<close>) and activated at 1400 ms (\<^verbatim>\<open>handleInteraction\<close>, Clear Scene); both
  timers, due at 1500 and 1900, are pending after the second call. A world tap at 1600 ms,
  which is before 1400 + 500, finds the gate open and places a model.
\<close>

theorem reblock_unblocks_early:
  "timers (run flat_three [(0, EnterAR), (100, HitTestResolved 7), (200, Frame hit_frame),
      (1000, HudPointerDown), (1400, HudClickClear)] (init flat_three)) = [1500, 1900]
   \<and> models (run flat_three [(0, EnterAR), (100, HitTestResolved 7), (200, Frame hit_frame),
      (1000, HudPointerDown), (1400, HudClickClear)] (init flat_three)) = []
   \<and> \<not> isUiBlocked (fireTimers 1600
        (run flat_three [(0, EnterAR), (100, HitTestResolved 7), (200, Frame hit_frame),
          (1000, HudPointerDown), (1400, HudClickClear)] (init flat_three)))
   \<and> map ident (models (run flat_three [(0, EnterAR), (100, HitTestResolved 7),
        (200, Frame hit_frame), (1000, HudPointerDown), (1400, HudClickClear),
        (1600, Select 42 ''abc'')] (init flat_three))) = [''model-42-abc'']"
proof -
  have "run flat_three [(0, EnterAR), (100, HitTestResolved 7), (200, Frame hit_frame),
      (1000, HudPointerDown), (1400, HudClickClear)] (init flat_three) = st_clr"
    by (simp add: step_st_ar step_st_src step_st_det step_st_down step_st_clr)
  moreover have "run flat_three [(0, EnterAR), (100, HitTestResolved 7), (200, Frame hit_frame),
      (1000, HudPointerDown), (1400, HudClickClear), (1600, Select 42 ''abc'')]
      (init flat_three) = st_tap"
    by (simp add: step_st_ar step_st_src step_st_det step_st_down step_st_clr step_st_tap)
  moreover have "timers st_clr = [1500, 1900]" "models st_clr = []"
    "\<not> isUiBlocked (fireTimers 1600 st_clr)"
    by (simp_all add: st_clr_def fireTimers_def)
  moreover have "map ident (models st_tap) = [''model-42-abc'']"
    by (simp add: st_tap_def gen_id_42)
  ultimately show ?thesis by simp
qed



text \<open>The model placed at \<open>(1, 0, -2)\<close> stays there while the next frame moves the preview
  to \<open>(3/8, 0, -27/16)\<close>.\<close>

theorem placed_pose_is_copy_witness:
  "Some (pose_of (step flat_three 300 (Select 42 ''abc'') st_det)
           (last (models (step flat_three 300 (Select 42 ''abc'') st_det))))
     = Some ((1, 0, - 2), ())
   \<and> list_all (\<lambda>m. pose_of (run flat_three [(400, Frame (miss_frame (1 / 8)))]
                              (step flat_three 300 (Select 42 ''abc'') st_det)) m
                     = ((1, 0, - 2), ()))
        (models (step flat_three 300 (Select 42 ''abc'') st_det))
   \<and> preview_pose (run flat_three [(400, Frame (miss_frame (1 / 8)))]
                              (step flat_three 300 (Select 42 ''abc'') st_det))
     = Some ((3 / 8, 0, - (27 / 16)), ())"
proof -
  have f: "isPresenting st_det" "isPlacementMode st_det"
    "\<not> isUiBlocked (fireTimers 300 st_det)" "isSurfaceDetected st_det"
    by (simp_all add: st_det_def fireTimers_def)
  have v: "preview_pose st_det = Some ((1, 0, - 2), ())"
    by (simp add: st_det_def preview_pose_def)
  have m: "models st_p1 = [\<lparr>position = 2, rotation = 3, ident = gen_id 42 ''abc''\<rparr>]"
    "pose_of st_p1 \<lparr>position = 2, rotation = 3, ident = gen_id 42 ''abc''\<rparr> = ((1, 0, - 2), ())"
    by (simp_all add: st_p1_def pose_of_def)
  have w: "preview_pose st_p1m = Some ((3 / 8, 0, - (27 / 16)), ())"
    by (simp add: st_p1m_def preview_pose_def)
  from placed_pose_is_copy [OF run_st_det [symmetric] f,
      of 42 "''abc''" "[(400, Frame (miss_frame (1 / 8)))]"] v m w
  show ?thesis by (simp add: step_st_p1 step_st_p1m)
qed

text \<open>
  Claim C7 as stated fails: the id is a function of the value of \<^verbatim>\<open>Date.now()\<close> and of the
  random suffix only. In the run below a model is placed, the scene is cleared, and a
  second tap for which \<^verbatim>\<open>Date.now()\<close> and the random expression evaluate as they did for the
  first one receives the id that was issued before the clear.
\<close>

theorem id_reuse_counterexample:
  "map ident (models (run flat_three [(0, EnterAR), (100, HitTestResolved 7),
      (200, Frame hit_frame), (300, Select 42 ''abc'')] (init flat_three)))
     = [''model-42-abc'']
   \<and> models (run flat_three [(0, EnterAR), (100, HitTestResolved 7),
      (200, Frame hit_frame), (300, Select 42 ''abc''), (1000, HudClickClear)]
      (init flat_three)) = []
   \<and> map ident (models (run flat_three [(0, EnterAR), (100, HitTestResolved 7),
      (200, Frame hit_frame), (300, Select 42 ''abc''), (1000, HudClickClear),
      (2000, Select 42 ''abc'')] (init flat_three)))
     = [''model-42-abc'']"
  by (simp add: step_st_ar step_st_src step_st_det step_st_p1 step_st_p2 step_st_p3)
     (simp add: st_p1_def st_p2_def st_p3_def gen_id_42)

text \<open>Clearing and placing again with a different time stamp and suffix.\<close>

theorem clear_then_add_id_witness:
  "models (step flat_three 1000 HudClickClear st_p1) = []
   \<and> map ident (models (step flat_three 2000 (Select 43 ''abd'')
        (step flat_three 1000 HudClickClear st_p1))) = [gen_id 43 ''abd'']
   \<and> gen_id 43 ''abd'' \<noteq> gen_id 42 ''abc''"
proof -
  have f: "isPresenting st_p1" "isPlacementMode st_p1 \<and> isSurfaceDetected st_p1
      \<and> \<not> isUiBlocked (fireTimers 2000 (step flat_three 1000 HudClickClear st_p1))"
    by (simp_all add: step_st_p2) (simp_all add: st_p1_def st_p2_def fireTimers_def)
  from clear_then_add_id [OF run_st_p1 [symmetric] f(1), of 1000 2000 43 "''abd''" 42 "''abc''"]
    f(2)
  show ?thesis by simp
qed

text \<open>
  Claim C8 as stated fails: from the same start (the fresh preview at the origin), with
  the same camera and the same total time of a quarter of a second, one tick of 1/4 s and
  two ticks of 1/8 s leave the preview at different positions. (All numbers involved are
  dyadic, so the binary floating-point computation gives the same values.)
\<close>

theorem frame_rate_counterexample:
  "preview_position (run flat_three ((0, EnterAR) # frames [(250, miss_frame (1 / 4))])
      (init flat_three)) = Some (0, 0, - (15 / 8))
   \<and> preview_position (run flat_three
        ((0, EnterAR) # frames [(125, miss_frame (1 / 8)), (250, miss_frame (1 / 8))])
        (init flat_three)) = Some (0, 0, - (165 / 128))
   \<and> preview_position (run flat_three ((0, EnterAR) # frames [(250, miss_frame (1 / 4))])
        (init flat_three))
     \<noteq> preview_position (run flat_three
        ((0, EnterAR) # frames [(125, miss_frame (1 / 8)), (250, miss_frame (1 / 8))])
        (init flat_three))
   \<and> (1 / 4 :: real) = 1 / 8 + 1 / 8"
  by (simp add: frames_def step_st_ar step_st_a step_st_b1 step_st_b2)
     (simp add: st_a_def st_b2_def preview_position_def)

text \<open>Two ticks of 1/8 s from the origin, by the product formula.\<close>

theorem preview_follow_is_lerp_witness:
  "preview_position (run flat_three
      (frames [(125, miss_frame (1 / 8)), (250, miss_frame (1 / 8))]) st_ar)
     = Some (0, 0, - (165 / 128))
   \<and> towards (0, 0, - (3 / 2)) (1 - 5 / 8) (0, 0, 0) = lerp (0, 0, 0) (0, 0, - (3 / 2)) (5 / 8)"
proof -
  have f: "isPresenting st_ar" "isPlacementMode st_ar" by (simp_all add: st_ar_def)
  have e: "list_all (\<lambda>(t, fr). hasFrame fr \<and> camMatrixWorld fr = identity4
                     \<and> hitTest (hitTestSource st_ar) fr = None)
             [(125, miss_frame (1 / 8)), (250, miss_frame (1 / 8))]"
    by (simp add: miss_frame_def hitTest_def)
  have p: "preview_position st_ar = Some (0, 0, 0)"
    by (simp add: st_ar_def preview_position_def)
  have t: "applyMatrix4 (0, 0, - 1.5) identity4 = (0, 0, - (3 / 2))"
    by (simp add: applyMatrix4_def identity4_def)
  from preview_follow_is_lerp [OF run_st_ar [symmetric] f e,
      of "(0, 0, - (3 / 2))" "5 / 8" "(0, 0, 0)"] p t
  show ?thesis by (simp add: miss_frame_def towards_def)
qed

text \<open>
  Claim C9 states that a failed hit-test source request is reported to the log, leaves the
  session running, and is never retried, so that no later poll returns a pose. The report
  and the running session hold; the rest does not. The effect that makes the request
  depends on \<^verbatim>\<open>onLog\<close>, and \<^verbatim>\<open>App\<close> passes a new \<^verbatim>\<open>addLog\<close> closure at every render, which
  the report of the failure itself causes. In the run below the request made on entering AR
  fails; the effect runs again and issues a second request; when that one resolves, the
  next frame detects a surface.
\<close>

theorem hit_test_failure_is_retried:
  "issuedRequests (run flat_three [(0, EnterAR)] (init flat_three)) = 1
   \<and> emitted (run flat_three [(0, EnterAR), (50, HitTestFailed ''x'')] (init flat_three))
       = [''Initializing AR...'', ''Hit Test Error: x'']
   \<and> isPresenting (run flat_three [(0, EnterAR), (50, HitTestFailed ''x'')] (init flat_three))
   \<and> issuedRequests (run flat_three [(0, EnterAR), (50, HitTestFailed ''x'')]
        (init flat_three)) = 2
   \<and> pendingRequests (run flat_three [(0, EnterAR), (50, HitTestFailed ''x'')]
        (init flat_three)) = 1
   \<and> isSurfaceDetected (run flat_three [(0, EnterAR), (50, HitTestFailed ''x''),
        (60, HitTestResolved 8), (70, Frame hit_frame)] (init flat_three))"
  by (simp add: step_st_ar step_st_fail step_st_re step_st_redet)
     (simp add: st_ar_def st_fail_def st_redet_def)

end
